theory Spec2Isabelle
  imports Main "HOL-Library.AList" "HOL-Library.Sublist"
begin

section \<open>Python values\<close>

text \<open>
  A Python \<open>str\<close> is the sequence of its code points. String literals of the source
  that are pure ASCII are written \<open>ascii ''...''\<close>.
\<close>

type_synonym pystr = "nat list"

definition ascii :: "string \<Rightarrow> pystr" where
  "ascii cs = map of_char cs"

datatype py_error = KeyError | TypeError | AttributeError | OverflowError | RuntimeError

text \<open>
  A \<open>dict\<close> keeps its keys in insertion order: it is an association list.
  \<open>d[k] = v\<close> is \<open>AList.update k v d\<close> (in place for a key that is present, at the
  end for a new one), \<open>del d[k]\<close> is \<open>AList.delete k d\<close>, \<open>k in d\<close> is
  \<open>map_of d k \<noteq> None\<close>.
\<close>

definition subscript :: "('k \<times> 'v) list \<Rightarrow> 'k \<Rightarrow> py_error + 'v" where
  "subscript d k = (case map_of d k of None \<Rightarrow> Inl KeyError | Some v \<Rightarrow> Inr v)"

definition dict_get :: "('k \<times> 'v) list \<Rightarrow> 'k \<Rightarrow> 'v \<Rightarrow> 'v" where
  "dict_get d k dflt = (case map_of d k of None \<Rightarrow> dflt | Some v \<Rightarrow> v)"

text \<open>The slices \<open>xs[i:]\<close> and \<open>xs[:j]\<close>; a negative bound counts from the end.\<close>

definition slice_from :: "int \<Rightarrow> 'a list \<Rightarrow> 'a list" where
  "slice_from i xs =
     (if i < 0 then drop (nat (int (length xs) + i)) xs else drop (nat i) xs)"

definition slice_to :: "int \<Rightarrow> 'a list \<Rightarrow> 'a list" where
  "slice_to j xs =
     (if j < 0 then take (nat (int (length xs) + j)) xs else take (nat j) xs)"

section \<open>memory_manager.py\<close>

text \<open>
  \<open>memory[session_id][agent]\<close> is a list of message entries. The timestamp of an
  entry is the clock reading \<open>datetime.now()\<close> in microseconds; the source stores it
  with \<open>isoformat\<close> and reads it back with \<open>fromisoformat\<close>, which returns the same
  reading. The clock reading and \<open>Config.MAX_CONVERSATION_HISTORY\<close> (an \<open>int\<close> read
  from the environment, 30 when unset) are arguments of the model.
\<close>

record message =
  role :: pystr
  content :: pystr
  timestamp :: int

type_synonym session = "(pystr \<times> message list) list"
type_synonym memory = "(pystr \<times> session) list"

definition new_session :: session where
  "new_session =
     [(ascii ''phanloai'', []), (ascii ''create_order'', []), (ascii ''consulting'', [])]"

definition ensure_session :: "memory \<Rightarrow> pystr \<Rightarrow> memory" where
  "ensure_session mem sid =
     (if map_of mem sid = None then AList.update sid new_session mem else mem)"

definition get_history ::
  "memory \<Rightarrow> pystr option \<Rightarrow> pystr \<Rightarrow> (py_error + message list) \<times> memory" where
  "get_history mem session_id agent =
     (case session_id of
        Some (c # cs) \<Rightarrow>
          (let mem1 = ensure_session mem (c # cs) in
           case subscript mem1 (c # cs) of
             Inl e \<Rightarrow> (Inl e, mem1)
           | Inr sess \<Rightarrow> (Inr (dict_get sess agent []), mem1))
      | _ \<Rightarrow> (Inr [], mem))"

text \<open>
  Lines 65 to 71 of \<open>add_message\<close>: the append to \<open>memory[session_id][agent]\<close> and
  the truncation \<open>[-Config.MAX_CONVERSATION_HISTORY:]\<close> when the list is longer than
  the cap.
\<close>

definition append_capped :: "int \<Rightarrow> message list \<Rightarrow> message \<Rightarrow> message list" where
  "append_capped cap h entry =
     (let h1 = h @ [entry]
      in if int (length h1) > cap then slice_from (- cap) h1 else h1)"

definition add_message ::
  "int \<Rightarrow> int \<Rightarrow> memory \<Rightarrow> pystr option \<Rightarrow> pystr \<Rightarrow> pystr \<Rightarrow> pystr
     \<Rightarrow> (py_error + unit) \<times> memory" where
  "add_message cap now mem session_id agent r c =
     (case session_id of
        Some (x # xs) \<Rightarrow>
          (let sid = x # xs;
               mem1 = ensure_session mem sid;
               entry = \<lparr>role = r, content = c, timestamp = now\<rparr>
           in case subscript mem1 sid of
                Inl e \<Rightarrow> (Inl e, mem1)
              | Inr sess \<Rightarrow>
                  (case subscript sess agent of
                     Inl e \<Rightarrow> (Inl e, mem1)
                   | Inr h \<Rightarrow>
                       (Inr (),
                        AList.update sid
                          (AList.update agent (append_capped cap h entry) sess) mem1)))
      | _ \<Rightarrow> (Inr (), mem))"

definition clear_session ::
  "memory \<Rightarrow> pystr option \<Rightarrow> pystr option \<Rightarrow> (py_error + bool) \<times> memory" where
  "clear_session mem session_id agent =
     (case session_id of
        None \<Rightarrow> (Inr False, mem)
      | Some sid \<Rightarrow>
          if map_of mem sid = None then (Inr False, mem)
          else (case agent of
                  Some (a # as) \<Rightarrow>
                    (case subscript mem sid of
                       Inl e \<Rightarrow> (Inl e, mem)
                     | Inr sess \<Rightarrow>
                         if map_of sess (a # as) \<noteq> None
                         then (Inr True, AList.update sid (AList.update (a # as) [] sess) mem)
                         else (Inr False, mem))
                | _ \<Rightarrow> (Inr True, AList.delete sid mem)))"

text \<open>
  \<open>cleanup_old_sessions\<close>: the inner loop over \<open>agents.values()\<close>, the construction
  \<open>timedelta(hours=max_age_hours)\<close> (which raises \<open>OverflowError\<close> beyond 999999999
  days), the test of one session, the outer loop that fills \<open>sessions_to_delete\<close>, and
  the deletions.
\<close>

primrec scan_agents :: "message list list \<Rightarrow> int option \<Rightarrow> int option" where
  "scan_agents [] most_recent = most_recent"
| "scan_agents (agent_messages # rest) most_recent =
     scan_agents rest
       (if agent_messages \<noteq> []
        then (let last_msg_time = timestamp (last agent_messages)
              in case most_recent of
                   None \<Rightarrow> Some last_msg_time
                 | Some m \<Rightarrow> if last_msg_time > m then Some last_msg_time else Some m)
        else most_recent)"

definition timedelta_hours :: "int \<Rightarrow> py_error + int" where
  "timedelta_hours h =
     (if \<bar>h div 24\<bar> > 999999999 then Inl OverflowError else Inr (h * 3600000000))"

definition session_is_old :: "int \<Rightarrow> int \<Rightarrow> session \<Rightarrow> py_error + bool" where
  "session_is_old now max_age_hours agents =
     (case scan_agents (map snd agents) None of
        None \<Rightarrow> Inr False
      | Some most_recent \<Rightarrow>
          (case timedelta_hours max_age_hours of
             Inl e \<Rightarrow> Inl e
           | Inr d \<Rightarrow> Inr (now - most_recent > d)))"

fun collect_old :: "int \<Rightarrow> int \<Rightarrow> memory \<Rightarrow> pystr list \<Rightarrow> py_error + pystr list" where
  "collect_old now h [] sessions_to_delete = Inr sessions_to_delete"
| "collect_old now h ((session_id, agents) # rest) sessions_to_delete =
     (case session_is_old now h agents of
        Inl e \<Rightarrow> Inl e
      | Inr old \<Rightarrow>
          collect_old now h rest
            (if old then sessions_to_delete @ [session_id] else sessions_to_delete))"

definition cleanup_old_sessions :: "int \<Rightarrow> memory \<Rightarrow> int \<Rightarrow> (py_error + nat) \<times> memory" where
  "cleanup_old_sessions now mem max_age_hours =
     (case collect_old now max_age_hours mem [] of
        Inl e \<Rightarrow> (Inl e, mem)
      | Inr sessions_to_delete \<Rightarrow>
          (Inr (length sessions_to_delete), fold AList.delete sessions_to_delete mem))"

text \<open>
  A sequence of \<open>add_message\<close> calls on one session and agent, each with its clock
  reading, role and content; a call that raises leaves the memory as the raise found it
  and the next call goes on from there. \<open>entry_of\<close> is the entry a call builds.
\<close>

fun entry_of :: "int \<times> pystr \<times> pystr \<Rightarrow> message" where
  "entry_of (now, r, c) = \<lparr>role = r, content = c, timestamp = now\<rparr>"

fun add_messages ::
  "int \<Rightarrow> memory \<Rightarrow> pystr option \<Rightarrow> pystr \<Rightarrow> (int \<times> pystr \<times> pystr) list \<Rightarrow> memory" where
  "add_messages cap mem session_id agent [] = mem"
| "add_messages cap mem session_id agent ((now, r, c) # rest) =
     add_messages cap (snd (add_message cap now mem session_id agent r c)) session_id agent rest"

text \<open>
  The property \<open>cleanup_old_sessions\<close> is compared with: a session is idle when some
  agent's list has a message and the latest of the lists' last timestamps is more than
  \<open>max_age_hours\<close> hours (in microseconds) before \<open>now\<close>.
\<close>

definition last_turn_times :: "session \<Rightarrow> int list" where
  "last_turn_times agents =
     map (\<lambda>msgs. timestamp (last msgs)) (filter (\<lambda>msgs. msgs \<noteq> []) (map snd agents))"

definition idle :: "int \<Rightarrow> int \<Rightarrow> session \<Rightarrow> bool" where
  "idle now max_age_hours agents =
     (last_turn_times agents \<noteq> [] \<and>
      now - Max (set (last_turn_times agents)) > max_age_hours * 3600000000)"

section \<open>Methods of \<open>str\<close>\<close>

text \<open>
  \<open>str.lower\<close> follows the Unicode case tables, which are no part of the repository:
  every function that calls it takes it as the argument \<open>lower\<close>, and what is
  proved holds for every such function. \<open>ascii_lower\<close> is \<open>str.lower\<close> on ASCII
  strings; the examples use it.
\<close>

definition ascii_lower :: "pystr \<Rightarrow> pystr" where
  "ascii_lower s = map (\<lambda>c. if 65 \<le> c \<and> c \<le> 90 then c + 32 else c) s"

text \<open>\<open>str.isspace\<close> of one code point: the Unicode white space.\<close>

definition isspace :: "nat \<Rightarrow> bool" where
  "isspace c =
     (c \<in> {9, 10, 11, 12, 13, 28, 29, 30, 31, 32, 133, 160, 5760,
            8232, 8233, 8239, 8287, 12288} \<or> (8192 \<le> c \<and> c \<le> 8202))"

text \<open>\<open>s.strip()\<close>, \<open>s.split()\<close> and \<open>' '.join(ws)\<close>.\<close>

definition strip :: "pystr \<Rightarrow> pystr" where
  "strip s = rev (dropWhile isspace (rev (dropWhile isspace s)))"

primrec split_acc :: "pystr \<Rightarrow> pystr \<Rightarrow> pystr list" where
  "split_acc [] w = (if w = [] then [] else [w])"
| "split_acc (c # cs) w =
     (if isspace c then (if w = [] then split_acc cs [] else w # split_acc cs [])
      else split_acc cs (w @ [c]))"

definition split :: "pystr \<Rightarrow> pystr list" where
  "split s = split_acc s []"

fun join_space :: "pystr list \<Rightarrow> pystr" where
  "join_space [] = []"
| "join_space [w] = w"
| "join_space (w # v # ws) = w @ [32] @ join_space (v # ws)"

text \<open>
  \<open>sub in s\<close>, \<open>s.find(sub)\<close> (the first index, \<open>-1\<close> when there is none) and
  \<open>s.count(sub)\<close> (the occurrences that do not overlap, counted from the left; the
  empty string occurs \<open>len(s) + 1\<close> times).
\<close>

primrec py_in :: "pystr \<Rightarrow> pystr \<Rightarrow> bool" where
  "py_in sub [] = (sub = [])"
| "py_in sub (c # cs) = (prefix sub (c # cs) \<or> py_in sub cs)"

primrec py_find :: "pystr \<Rightarrow> pystr \<Rightarrow> int" where
  "py_find sub [] = (if sub = [] then 0 else - 1)"
| "py_find sub (c # cs) =
     (if prefix sub (c # cs) then 0
      else (let r = py_find sub cs in if r < 0 then - 1 else r + 1))"

fun py_count :: "pystr \<Rightarrow> pystr \<Rightarrow> nat" where
  "py_count sub [] = (if sub = [] then 1 else 0)"
| "py_count sub (c # cs) =
     (if sub = [] then 1 + py_count sub cs
      else if prefix sub (c # cs) then 1 + py_count sub (drop (length sub) (c # cs))
      else py_count sub cs)"

text \<open>The slice \<open>xs[i:j]\<close>.\<close>

definition clamp_index :: "nat \<Rightarrow> int \<Rightarrow> nat" where
  "clamp_index n i = (if i < 0 then nat (int n + i) else min n (nat i))"

definition slice :: "int \<Rightarrow> int \<Rightarrow> 'a list \<Rightarrow> 'a list" where
  "slice i j xs = drop (clamp_index (length xs) i) (take (clamp_index (length xs) j) xs)"

section \<open>document_handler.py\<close>

text \<open>
  \<open>documents[doc_name]\<close> is a dict with the keys \<open>filename\<close>, \<open>type\<close> and
  \<open>content\<close>, which every loader writes (the other keys are not read by the
  searches). A result of \<open>search_in_documents\<close> is a dict with the keys
  \<open>document\<close>, \<open>filename\<close>, \<open>type\<close>, \<open>snippet\<close> and \<open>relevance\<close>.
\<close>

record doc_data =
  filename :: pystr
  doc_type :: pystr
  doc_content :: pystr

type_synonym documents = "(pystr \<times> doc_data) list"

record hit =
  document :: pystr
  hit_filename :: pystr
  hit_type :: pystr
  snippet :: pystr
  relevance :: nat

text \<open>
  \<open>results.sort(key=lambda x: x['relevance'], reverse=True)\<close>: the sort of Python is
  stable, also with \<open>reverse=True\<close>.
\<close>

definition sort_by_relevance :: "hit list \<Rightarrow> hit list" where
  "sort_by_relevance results = sort_key (\<lambda>x. - int (relevance x)) results"

definition make_hit :: "(pystr \<Rightarrow> pystr) \<Rightarrow> pystr \<Rightarrow> pystr \<Rightarrow> doc_data \<Rightarrow> hit" where
  "make_hit lower query_lower doc_name data =
     (let content = doc_content data;
          content_lower = lower content;
          index = py_find query_lower content_lower;
          start = max 0 (index - 200);
          end' = min (int (length content)) (index + 200)
      in \<lparr>document = doc_name, hit_filename = filename data, hit_type = doc_type data,
           snippet = strip (slice start end' content),
           relevance = py_count query_lower content_lower\<rparr>)"

primrec match_documents :: "(pystr \<Rightarrow> pystr) \<Rightarrow> pystr \<Rightarrow> documents \<Rightarrow> hit list" where
  "match_documents lower query_lower [] = []"
| "match_documents lower query_lower (d # ds) =
     (if py_in query_lower (lower (doc_content (snd d)))
      then make_hit lower query_lower (fst d) (snd d) # match_documents lower query_lower ds
      else match_documents lower query_lower ds)"

definition search_in_documents ::
  "(pystr \<Rightarrow> pystr) \<Rightarrow> documents \<Rightarrow> pystr \<Rightarrow> int \<Rightarrow> hit list" where
  "search_in_documents lower docs query limit =
     slice_to limit (sort_by_relevance (match_documents lower (lower query) docs))"


text \<open>
  \<open>products_cache[product_id]\<close> is the dict of one product, of a type \<open>'p\<close>; the
  keys of the cache are of a type \<open>'k\<close>, compared as Python compares dict keys.
  \<open>json.dumps(product_data, ensure_ascii=False)\<close> is the argument \<open>dumps\<close>. A result
  \<open>{'id': product_id, **product_data}\<close> of \<open>search_products\<close> is the pair of
  \<open>product_id\<close> and \<open>product_data\<close>. The loop leaves at the \<open>break\<close> once
  \<open>len(results) >= limit\<close>, a test it makes after every product.
\<close>

fun search_products_loop ::
  "(pystr \<Rightarrow> pystr) \<Rightarrow> ('p \<Rightarrow> pystr) \<Rightarrow> pystr \<Rightarrow> int \<Rightarrow> ('k \<times> 'p) list \<Rightarrow> ('k \<times> 'p) list
     \<Rightarrow> ('k \<times> 'p) list" where
  "search_products_loop lower dumps query_lower limit [] results = results"
| "search_products_loop lower dumps query_lower limit ((product_id, product_data) # rest) results =
     (let text_to_search = lower (dumps product_data);
          results1 = (if py_in query_lower text_to_search
                      then results @ [(product_id, product_data)] else results)
      in if int (length results1) \<ge> limit then results1
         else search_products_loop lower dumps query_lower limit rest results1)"

definition search_products ::
  "(pystr \<Rightarrow> pystr) \<Rightarrow> ('p \<Rightarrow> pystr) \<Rightarrow> ('k \<times> 'p) list \<Rightarrow> pystr \<Rightarrow> int \<Rightarrow> ('k \<times> 'p) list" where
  "search_products lower dumps products query limit =
     search_products_loop lower dumps (lower query) limit products []"


section \<open>smart_document_handler.py\<close>

text \<open>
  The values \<open>json.loads\<close> returns: \<open>None\<close>, booleans, integers, floats (\<open>Finite m e\<close>
  is \<open>m * 2 ** e\<close>), strings, lists, and dicts with string keys. \<open>truthy\<close> is the
  truth value Python gives them in \<open>if prev_topic:\<close>.
\<close>

datatype pyfloat = Finite int int | Infinite bool | NaN

datatype json =
    JNull
  | JBool bool
  | JInt int
  | JFloat pyfloat
  | JStr pystr
  | JArr "json list"
  | JObj "(pystr \<times> json) list"

fun truthy :: "json \<Rightarrow> bool" where
  "truthy JNull = False"
| "truthy (JBool b) = b"
| "truthy (JInt i) = (i \<noteq> 0)"
| "truthy (JFloat (Finite m e)) = (m \<noteq> 0)"
| "truthy (JFloat f) = True"
| "truthy (JStr s) = (s \<noteq> [])"
| "truthy (JArr xs) = (xs \<noteq> [])"
| "truthy (JObj kvs) = (kvs \<noteq> [])"

text \<open>
  The stop words of \<open>_simple_keyword_extraction\<close>, as code points: la, gi, nhu, the,
  nao, duoc, khong, co, cua, thi, each with its Vietnamese diacritics.
\<close>

definition stop_words :: "pystr list" where
  "stop_words =
     [[108, 224], [103, 236], [110, 104, 432], [116, 104, 7871], [110, 224, 111],
      [273, 432, 7907, 99], [107, 104, 244, 110, 103], [99, 243], [99, 7911, 97],
      [116, 104, 236]]"

definition extract_keywords :: "(pystr \<Rightarrow> pystr) \<Rightarrow> pystr \<Rightarrow> pystr list" where
  "extract_keywords lower text =
     filter (\<lambda>w. w \<notin> set stop_words \<and> length w > 2) (split (lower text))"

text \<open>
  \<open>candidate_queries\<close> is the list \<open>queries\<close> that \<open>_simple_keyword_extraction\<close>
  fills from the keywords: the keywords joined when there are at most three, the first
  three keywords, and each pair of neighbours joined by a space.
  \<open>list(set(queries))\<close> lists the distinct queries in the order of the hash table,
  which depends on the hash seed of the process: it is the argument \<open>list_of_set\<close>.
\<close>

definition candidate_queries :: "pystr list \<Rightarrow> pystr list" where
  "candidate_queries kws =
     (if length kws \<le> 3 then [join_space kws] else [])
     @ take 3 kws
     @ map (\<lambda>i. kws ! i @ [32] @ kws ! (i + 1)) [0..<length kws - 1]"

definition simple_keyword_extraction ::
  "(pystr \<Rightarrow> pystr) \<Rightarrow> (pystr list \<Rightarrow> pystr list) \<Rightarrow> pystr \<Rightarrow> pystr list" where
  "simple_keyword_extraction lower list_of_set text =
     take 5 (list_of_set (candidate_queries (extract_keywords lower text)))"

text \<open>
  \<open>re.search(r'\{.*\}', response, re.DOTALL)\<close>: the text from the first opening
  brace (code point 123) to the last closing brace (125) after it, if there is one.
\<close>

definition json_match :: "pystr \<Rightarrow> pystr option" where
  "json_match response =
     (let rest = dropWhile (\<lambda>c. c \<noteq> 123) response;
          body = rev (dropWhile (\<lambda>c. c \<noteq> 125) (rev rest))
      in if body = [] then None else Some body)"

text \<open>
  \<open>conversation_context[session_id]\<close> is a dict with the keys \<open>topic\<close> and
  \<open>entities\<close>. The completion capability \<open>self.model\<close> is \<open>None\<close> or an object whose
  \<open>generate\<close> returns a text or raises; what it sees of the call is the prompt, built
  from the utterance and, when there is one, the topic of the previous call. 
  \<open>json.loads\<close> is the argument \<open>json_loads\<close>, \<open>None\<close> where it raises.
\<close>

record topic_context =
  topic :: json
  entities :: json

record prompt =
  prompt_input :: pystr
  prompt_context :: "json option"

type_synonym capability = "prompt \<Rightarrow> py_error + pystr"

definition previous_topic :: "(pystr \<times> topic_context) list \<Rightarrow> pystr option \<Rightarrow> json option" where
  "previous_topic ctx session_id =
     (case session_id of
        Some (c # cs) \<Rightarrow>
          (case map_of ctx (c # cs) of
             Some tc \<Rightarrow> if truthy (topic tc) then Some (topic tc) else None
           | None \<Rightarrow> None)
      | _ \<Rightarrow> None)"

definition rewrite_query ::
  "(pystr \<Rightarrow> pystr) \<Rightarrow> (pystr list \<Rightarrow> pystr list) \<Rightarrow> (pystr \<Rightarrow> json option)
     \<Rightarrow> capability option \<Rightarrow> (pystr \<times> topic_context) list \<Rightarrow> pystr \<Rightarrow> pystr option
     \<Rightarrow> json \<times> (pystr \<times> topic_context) list" where
  "rewrite_query lower list_of_set json_loads model ctx user_input session_id =
     (let fallback = JArr (map JStr (simple_keyword_extraction lower list_of_set user_input))
      in case model of
           None \<Rightarrow> (fallback, ctx)
         | Some generate \<Rightarrow>
             (case generate \<lparr>prompt_input = user_input,
                             prompt_context = previous_topic ctx session_id\<rparr> of
                Inl e \<Rightarrow> (fallback, ctx)
              | Inr response \<Rightarrow>
                  (case json_match response of
                     None \<Rightarrow> (fallback, ctx)
                   | Some matched \<Rightarrow>
                       (case json_loads matched of
                          Some (JObj data) \<Rightarrow>
                            (dict_get data (ascii ''search_queries'') (JArr []),
                             case session_id of
                               Some (c # cs) \<Rightarrow>
                                 AList.update (c # cs)
                                   \<lparr>topic = dict_get data (ascii ''main_topic'') JNull,
                                    entities = dict_get data (ascii ''entities'') (JArr [])\<rparr>
                                   ctx
                             | _ \<Rightarrow> ctx)
                        | _ \<Rightarrow> (fallback, ctx)))))"

text \<open>
  The object the capability's response is parsed to, \<open>None\<close> on every path that ends in
  the fallback: no capability, \<open>generate\<close> raises, no braces in the response,
  \<open>json.loads\<close> raises, or what it returns is no dict.
\<close>

definition parsed_response ::
  "(pystr \<Rightarrow> json option) \<Rightarrow> capability option \<Rightarrow> (pystr \<times> topic_context) list \<Rightarrow> pystr
     \<Rightarrow> pystr option \<Rightarrow> (pystr \<times> json) list option" where
  "parsed_response json_loads model ctx user_input session_id =
     (case model of
        None \<Rightarrow> None
      | Some generate \<Rightarrow>
          (case generate \<lparr>prompt_input = user_input,
                          prompt_context = previous_topic ctx session_id\<rparr> of
             Inl e \<Rightarrow> None
           | Inr response \<Rightarrow>
               (case json_match response of
                  None \<Rightarrow> None
                | Some matched \<Rightarrow>
                    (case json_loads matched of Some (JObj data) \<Rightarrow> Some data | _ \<Rightarrow> None))))"

text \<open>
  An example: a response that is a JSON object with the three fields, and what
  \<open>json.loads\<close> returns for it and for the empty object. \<open>quoted s\<close> is \<open>s\<close> between
  double quotes (code point 34).
\<close>

definition quoted :: "pystr \<Rightarrow> pystr" where
  "quoted s = [34] @ s @ [34]"

definition example_response :: pystr where
  "example_response =
     ascii ''{'' @ quoted (ascii ''main_topic'') @ ascii '': '' @ quoted (ascii ''son'') @ ascii '', ''
     @ quoted (ascii ''entities'') @ ascii '': ['' @ quoted (ascii ''2k'') @ ascii ''], ''
     @ quoted (ascii ''search_queries'') @ ascii '': ['' @ quoted (ascii ''son 2k'') @ ascii '']}''"

definition example_loads :: "pystr \<Rightarrow> json option" where
  "example_loads t =
     (if t = example_response
      then Some (JObj [(ascii ''main_topic'', JStr (ascii ''son'')),
                       (ascii ''entities'', JArr [JStr (ascii ''2k'')]),
                       (ascii ''search_queries'', JArr [JStr (ascii ''son 2k'')])])
      else if t = ascii ''{}'' then Some (JObj [])
      else None)"

text \<open>
  \<open>smart_search\<close>. \<open>for query in queries\<close> iterates a list, the characters of a
  string or the keys of a dict, and raises \<open>TypeError\<close> on anything else;
  \<open>search_in_documents\<close> calls \<open>query.lower()\<close>, which raises \<open>AttributeError\<close> on a
  query that is no string. A product found is the pair for
  \<open>{'id': product_id, **product_data}\<close>; \<open>item_id product_data\<close> is
  \<open>product_data['id']\<close> when \<open>product_data\<close> has that key, so that \<open>prod_key\<close> is
  \<open>prod.get('id', prod.get('name'))\<close>.
\<close>

fun py_iter :: "json \<Rightarrow> py_error + json list" where
  "py_iter (JArr xs) = Inr xs"
| "py_iter (JStr s) = Inr (map (\<lambda>c. JStr [c]) s)"
| "py_iter (JObj kvs) = Inr (map (\<lambda>kv. JStr (fst kv)) kvs)"
| "py_iter v = Inl TypeError"

definition prod_key :: "('p \<Rightarrow> 'k option) \<Rightarrow> 'k \<times> 'p \<Rightarrow> 'k" where
  "prod_key item_id product = (case item_id (snd product) of Some k \<Rightarrow> k | None \<Rightarrow> fst product)"

text \<open>
  The two inner loops of \<open>smart_search\<close> have one shape: a result whose key is not
  in the set of keys seen is appended and its key added to the set; a result whose key
  was seen is dropped. The key of a document hit is \<open>doc['filename']\<close>.
\<close>

fun add_unseen :: "('a \<Rightarrow> 'b) \<Rightarrow> 'a list \<Rightarrow> 'a list \<times> 'b set \<Rightarrow> 'a list \<times> 'b set" where
  "add_unseen key [] found = found"
| "add_unseen key (x # xs) (all_results, seen) =
     (if key x \<notin> seen
      then add_unseen key xs (all_results @ [x], insert (key x) seen)
      else add_unseen key xs (all_results, seen))"


fun search_queries ::
  "(pystr \<Rightarrow> pystr) \<Rightarrow> ('p \<Rightarrow> pystr) \<Rightarrow> ('p \<Rightarrow> 'k option) \<Rightarrow> documents \<Rightarrow> ('k \<times> 'p) list
     \<Rightarrow> json list \<Rightarrow> (hit list \<times> pystr set) \<times> (('k \<times> 'p) list \<times> 'k set)
     \<Rightarrow> py_error + (hit list \<times> pystr set) \<times> (('k \<times> 'p) list \<times> 'k set)" where
  "search_queries lower dumps item_id docs products [] found = Inr found"
| "search_queries lower dumps item_id docs products (q # qs) (found_docs, found_products) =
     (case q of
        JStr query \<Rightarrow>
          search_queries lower dumps item_id docs products qs
            (add_unseen hit_filename (search_in_documents lower docs query 2) found_docs,
             add_unseen (prod_key item_id) (search_products lower dumps products query 2)
               found_products)
      | _ \<Rightarrow> Inl AttributeError)"

record ('k, 'p) search_result =
  documents_found :: "hit list"
  products_found :: "('k \<times> 'p) list"
  queries_used :: json

definition search_with ::
  "(pystr \<Rightarrow> pystr) \<Rightarrow> ('p \<Rightarrow> pystr) \<Rightarrow> ('p \<Rightarrow> 'k option) \<Rightarrow> documents \<Rightarrow> ('k \<times> 'p) list
     \<Rightarrow> json \<Rightarrow> int \<Rightarrow> py_error + ('k, 'p) search_result" where
  "search_with lower dumps item_id docs products queries limit =
     (case py_iter queries of
        Inl e \<Rightarrow> Inl e
      | Inr qs \<Rightarrow>
          (case search_queries lower dumps item_id docs products qs (([], {}), ([], {})) of
             Inl e \<Rightarrow> Inl e
           | Inr ((all_doc_results, seen_docs), (all_product_results, seen_products)) \<Rightarrow>
               Inr \<lparr>documents_found = slice_to limit (sort_by_relevance all_doc_results),
                    products_found = slice_to limit all_product_results,
                    queries_used = queries\<rparr>))"

definition smart_search ::
  "(pystr \<Rightarrow> pystr) \<Rightarrow> (pystr list \<Rightarrow> pystr list) \<Rightarrow> (pystr \<Rightarrow> json option)
     \<Rightarrow> ('p \<Rightarrow> pystr) \<Rightarrow> ('p \<Rightarrow> 'k option) \<Rightarrow> documents \<Rightarrow> ('k \<times> 'p) list
     \<Rightarrow> capability option \<Rightarrow> (pystr \<times> topic_context) list \<Rightarrow> pystr \<Rightarrow> pystr option \<Rightarrow> int
     \<Rightarrow> (py_error + ('k, 'p) search_result) \<times> (pystr \<times> topic_context) list" where
  "smart_search lower list_of_set json_loads dumps item_id docs products model ctx
       user_input session_id limit =
     (case rewrite_query lower list_of_set json_loads model ctx user_input session_id of
        (queries, ctx1) \<Rightarrow>
          (search_with lower dumps item_id docs products queries limit, ctx1))"


section \<open>Properties of the session memory\<close>

lemma map_of_ensure_session:
  "map_of (ensure_session mem sid) sid =
     Some (case map_of mem sid of None \<Rightarrow> new_session | Some s \<Rightarrow> s)"
  by (simp add: ensure_session_def update_conv' split: option.splits)

lemma map_of_ensure_session_other:
  "sid' \<noteq> sid \<Longrightarrow> map_of (ensure_session mem sid) sid' = map_of mem sid'"
  by (simp add: ensure_session_def update_conv')

lemma ensure_session_present: "map_of mem sid = Some s \<Longrightarrow> ensure_session mem sid = mem"
  by (simp add: ensure_session_def)

lemma ensure_session_twice: "ensure_session (ensure_session mem sid) sid = ensure_session mem sid"
  by (simp add: ensure_session_def update_conv')

text \<open>\<open>get_history\<close> and \<open>clear_session\<close> never raise.\<close>

lemma get_history_no_error: "fst (get_history mem session_id agent) \<noteq> Inl e"
  by (auto simp: get_history_def subscript_def Let_def map_of_ensure_session
      split: option.splits list.splits sum.splits)

lemma clear_session_no_error: "fst (clear_session mem session_id agent) \<noteq> Inl e"
  by (auto simp: clear_session_def subscript_def split: option.splits list.splits sum.splits)

lemma get_history_no_session:
  "get_history mem None agent = (Inr [], mem)"
  "get_history mem (Some []) agent = (Inr [], mem)"
  by (simp_all add: get_history_def)

lemma get_history_session:
  assumes "sid \<noteq> []"
  shows "get_history mem (Some sid) agent =
           (Inr (case map_of mem sid of
                   None \<Rightarrow> []
                 | Some sess \<Rightarrow> dict_get sess agent []),
            ensure_session mem sid)"
proof -
  obtain c cs where sid: "sid = c # cs" using assms by (cases sid) auto
  have new: "dict_get new_session agent [] = []"
    by (simp add: dict_get_def new_session_def)
  show ?thesis
    by (simp add: sid get_history_def subscript_def map_of_ensure_session new
        split: option.splits)
qed

text \<open>\<open>add_message\<close> without a session identifier does nothing.\<close>

lemma add_message_no_session:
  "add_message cap now mem None agent r c = (Inr (), mem)"
  "add_message cap now mem (Some []) agent r c = (Inr (), mem)"
  by (simp_all add: add_message_def)

text \<open>
  \<open>add_message\<close> on an agent the session holds stores the capped list; on an agent
  the session does not hold it raises \<open>KeyError\<close>, after the session was created.
\<close>

lemma add_message_known:
  assumes "sid \<noteq> []" "map_of (ensure_session mem sid) sid = Some sess"
    and "map_of sess agent = Some h"
  shows "add_message cap now mem (Some sid) agent r c =
     (Inr (), AList.update sid
        (AList.update agent (append_capped cap h \<lparr>role = r, content = c, timestamp = now\<rparr>) sess)
        (ensure_session mem sid))"
  using assms by (cases sid) (simp_all add: add_message_def subscript_def Let_def)

lemma add_message_unknown_agent:
  assumes "sid \<noteq> []" "map_of (ensure_session mem sid) sid = Some sess"
    and "map_of sess agent = None"
  shows "add_message cap now mem (Some sid) agent r c = (Inl KeyError, ensure_session mem sid)"
  using assms by (cases sid) (simp_all add: add_message_def subscript_def Let_def)

lemma add_message_ensured:
  "sid \<noteq> [] \<Longrightarrow>
   add_message cap now (ensure_session mem sid) (Some sid) agent r c =
   add_message cap now mem (Some sid) agent r c"
  by (cases sid) (simp_all add: add_message_def ensure_session_twice)

subsection \<open>The cap of a list\<close>

lemma append_capped_pos:
  "1 \<le> cap \<Longrightarrow> append_capped cap h e = drop (Suc (length h) - nat cap) (h @ [e])"
  by (auto simp: append_capped_def slice_from_def Let_def nat_diff_distrib' nat_add_distrib)

lemma append_capped_zero: "append_capped 0 h e = h @ [e]"
  by (simp add: append_capped_def slice_from_def)

lemma append_capped_drop:
  assumes "1 \<le> cap"
  shows "append_capped cap (drop (length xs - nat cap) xs) e =
           drop (length (xs @ [e]) - nat cap) (xs @ [e])"
proof (cases "length xs < nat cap")
  case True
  then show ?thesis using assms by (simp add: append_capped_pos)
next
  case False
  define m where "m = length xs - nat cap"
  have n: "0 < nat cap" using assms by simp
  have len: "length (drop m xs) = nat cap" using False by (simp add: m_def)
  have m: "Suc m \<le> length xs" using False n by (simp add: m_def)
  have eq: "Suc (length xs) - nat cap = Suc m" using False by (simp add: m_def Suc_diff_le)
  have "append_capped cap (drop m xs) e = drop (Suc 0) (drop m xs @ [e])"
    using assms len by (simp add: append_capped_pos)
  also have "\<dots> = drop (Suc m) xs @ [e]" using m by simp
  also have "\<dots> = drop (Suc m) (xs @ [e])" using m by simp
  finally show ?thesis using eq by (simp add: m_def)
qed

lemma foldl_append_capped:
  assumes "1 \<le> cap" "length h \<le> nat cap"
  shows "foldl (append_capped cap) h es = drop (length (h @ es) - nat cap) (h @ es)"
proof (induction es rule: rev_induct)
  case Nil
  then show ?case using assms(2) by simp
next
  case (snoc e es)
  have "foldl (append_capped cap) h (es @ [e]) =
          append_capped cap (drop (length (h @ es) - nat cap) (h @ es)) e"
    using snoc by simp
  also have "\<dots> = drop (length ((h @ es) @ [e]) - nat cap) ((h @ es) @ [e])"
    by (rule append_capped_drop [OF assms(1)])
  finally show ?case by simp
qed

lemma foldl_append_capped_zero: "foldl (append_capped 0) h es = h @ es"
  by (induction es rule: rev_induct) (simp_all add: append_capped_zero)

lemma map_of_add_messages_known:
  assumes "sid \<noteq> []" "map_of mem sid = Some sess" "map_of sess agent = Some h"
  shows "\<exists>sess'. map_of (add_messages cap mem (Some sid) agent ops) sid = Some sess' \<and>
           map_of sess' agent = Some (foldl (append_capped cap) h (map entry_of ops)) \<and>
           (\<forall>a. a \<noteq> agent \<longrightarrow> map_of sess' a = map_of sess a)"
  using assms(2,3)
proof (induction ops arbitrary: mem sess h)
  case Nil
  then show ?case by simp
next
  case (Cons op ops)
  obtain now r c where op: "op = (now, r, c)" by (cases op)
  let ?e = "\<lparr>role = r, content = c, timestamp = now\<rparr>"
  let ?sess1 = "AList.update agent (append_capped cap h ?e) sess"
  let ?mem1 = "AList.update sid ?sess1 mem"
  have ens: "ensure_session mem sid = mem" using Cons.prems(1) by (rule ensure_session_present)
  have step: "add_message cap now mem (Some sid) agent r c = (Inr (), ?mem1)"
    using add_message_known [OF assms(1), of mem sess agent h cap now r c] Cons.prems ens by simp
  have 1: "map_of ?mem1 sid = Some ?sess1" by (simp add: update_conv')
  have 2: "map_of ?sess1 agent = Some (append_capped cap h ?e)" by (simp add: update_conv')
  from Cons.IH [OF 1 2] obtain sess' where
    s: "map_of (add_messages cap ?mem1 (Some sid) agent ops) sid = Some sess'"
       "map_of sess' agent = Some (foldl (append_capped cap) (append_capped cap h ?e) (map entry_of ops))"
       "\<forall>a. a \<noteq> agent \<longrightarrow> map_of sess' a = map_of ?sess1 a"
    by blast
  show ?case using s step by (simp add: op update_conv')
qed

lemma add_messages_ensured:
  assumes "sid \<noteq> []" "ops \<noteq> []"
  shows "add_messages cap (ensure_session mem sid) (Some sid) agent ops =
         add_messages cap mem (Some sid) agent ops"
proof (cases ops)
  case Nil
  with assms(2) show ?thesis by simp
next
  case (Cons op rest)
  obtain now r c where op: "op = (now, r, c)" by (cases op)
  show ?thesis by (simp add: Cons op add_message_ensured [OF assms(1)])
qed

text \<open>
  With a cap of at least 1, on an agent that \<open>ensure_session\<close> creates, the list read
  back after any sequence of calls on a session that did not exist is the newest
  \<open>cap\<close> entries, in the order of the calls: never more than \<open>cap\<close>, and after
  \<open>cap + 1\<close> calls all but the first.
\<close>

lemma add_messages_keeps_newest:
  assumes "1 \<le> cap" "sid \<noteq> []" "map_of mem sid = None" "map_of new_session agent = Some []"
  shows "fst (get_history (add_messages cap mem (Some sid) agent ops) (Some sid) agent) =
           Inr (drop (length ops - nat cap) (map entry_of ops))"
proof (cases "ops = []")
  case True
  then show ?thesis using assms by (simp add: get_history_session)
next
  case False
  have 1: "map_of (ensure_session mem sid) sid = Some new_session"
    using assms(3) by (simp add: map_of_ensure_session)
  from map_of_add_messages_known [OF assms(2) 1 assms(4), of cap ops]
  obtain sess' where
    s: "map_of (add_messages cap (ensure_session mem sid) (Some sid) agent ops) sid = Some sess'"
       "map_of sess' agent = Some (foldl (append_capped cap) [] (map entry_of ops))"
    by blast
  have "map_of (add_messages cap mem (Some sid) agent ops) sid = Some sess'"
    using s(1) False assms(2) by (simp add: add_messages_ensured)
  then have "fst (get_history (add_messages cap mem (Some sid) agent ops) (Some sid) agent) =
               Inr (foldl (append_capped cap) [] (map entry_of ops))"
    using assms(2) s(2) by (simp add: get_history_session dict_get_def)
  then show ?thesis using foldl_append_capped [OF assms(1), of "[]" "map entry_of ops"] by simp
qed

lemma add_messages_length_le_cap:
  assumes "1 \<le> cap" "sid \<noteq> []" "map_of mem sid = None" "map_of new_session agent = Some []"
  shows "\<exists>h. fst (get_history (add_messages cap mem (Some sid) agent ops) (Some sid) agent) = Inr h
           \<and> int (length h) \<le> cap"
  using assms by (simp add: add_messages_keeps_newest [OF assms])

text \<open>
  C2 (the list of an agent never holds more than \<open>MAX_CONVERSATION_HISTORY\<close> entries).
  With the cap configured as 0 the slice \<open>[-0:]\<close> is the whole list, so nothing is ever
  dropped: after two calls on the agent \<open>consulting\<close> of a new session the list read
  back holds both entries.
\<close>

theorem add_message_cap_zero_keeps_everything:
  "fst (get_history
          (add_messages 0 [] (Some (ascii ''s1'')) (ascii ''consulting'')
             [(1, ascii ''user'', ascii ''a''), (2, ascii ''assistant'', ascii ''b'')])
          (Some (ascii ''s1'')) (ascii ''consulting''))
   = Inr [\<lparr>role = ascii ''user'', content = ascii ''a'', timestamp = 1\<rparr>,
          \<lparr>role = ascii ''assistant'', content = ascii ''b'', timestamp = 2\<rparr>]"
  by (simp add: get_history_def add_message_def ensure_session_def subscript_def dict_get_def
      new_session_def append_capped_def slice_from_def ascii_def)

text \<open>
  C10 (the memory operations never raise). \<open>ensure_session\<close> creates the agents
  \<open>phanloai\<close>, \<open>create_order\<close> and \<open>consulting\<close> only, and \<open>add_message\<close> subscripts
  the session with the agent: on the agent \<open>check_order\<close>, which \<open>api_server.py\<close> passes,
  the call raises \<open>KeyError\<close>, the session having been created.
\<close>

theorem add_message_check_order_raises:
  "add_message 30 0 [] (Some (ascii ''s1'')) (ascii ''check_order'') (ascii ''user'') (ascii ''hi'')
   = (Inl KeyError, [(ascii ''s1'', new_session)])"
  by (simp add: add_message_def ensure_session_def subscript_def new_session_def ascii_def)

subsection \<open>Clearing\<close>

lemma delete_absent: "map_of al k = None \<Longrightarrow> AList.delete k al = al"
  by (simp add: map_of_eq_None_iff)

lemma clear_session_whole:
  "clear_session mem (Some sid) None = (Inr (map_of mem sid \<noteq> None), AList.delete sid mem)"
  "clear_session mem (Some sid) (Some []) = (Inr (map_of mem sid \<noteq> None), AList.delete sid mem)"
  by (auto simp: clear_session_def delete_absent)

lemma clear_session_agent:
  assumes "agent \<noteq> []"
  shows "clear_session mem (Some sid) (Some agent) =
           (case map_of mem sid of
              None \<Rightarrow> (Inr False, mem)
            | Some sess \<Rightarrow>
                if map_of sess agent \<noteq> None
                then (Inr True, AList.update sid (AList.update agent [] sess) mem)
                else (Inr False, mem))"
proof -
  obtain a rest where agent: "agent = a # rest" using assms by (cases agent) auto
  show ?thesis by (auto simp: agent clear_session_def subscript_def split: option.splits)
qed

text \<open>
  C9, as first stated (the boolean returned is whether the session existed), fails
  when an agent is given that the session does not hold: the session \<open>s1\<close> exists, and
  clearing its agent \<open>check_order\<close> returns \<open>False\<close>.
\<close>

theorem clear_session_unknown_agent_returns_false:
  "map_of [(ascii ''s1'', new_session)] (ascii ''s1'') \<noteq> None \<and>
   clear_session [(ascii ''s1'', new_session)] (Some (ascii ''s1'')) (Some (ascii ''check_order''))
     = (Inr False, [(ascii ''s1'', new_session)])"
  by (simp add: clear_session_def subscript_def new_session_def ascii_def)

text \<open>
  C9, amended. Without an agent (or with the empty agent name) \<open>clear_session\<close> deletes
  the session and returns whether it existed. With a non-empty agent name it returns
  \<open>True\<close> and empties that agent's list when the session exists and holds the agent;
  when the session exists without holding the agent, or does not exist, it returns
  \<open>False\<close> and changes nothing. After the deletion of a session, \<open>get_history\<close> on
  any agent of it returns the empty list.
\<close>

theorem clear_session_result:
  "clear_session mem (Some sid) None = (Inr (map_of mem sid \<noteq> None), AList.delete sid mem) \<and>
   clear_session mem (Some sid) (Some []) = clear_session mem (Some sid) None \<and>
   (agent \<noteq> [] \<and> map_of mem sid = Some sess \<and> map_of sess agent \<noteq> None \<longrightarrow>
      clear_session mem (Some sid) (Some agent) =
        (Inr True, AList.update sid (AList.update agent [] sess) mem)) \<and>
   (agent \<noteq> [] \<and> map_of mem sid = Some sess \<and> map_of sess agent = None \<longrightarrow>
      clear_session mem (Some sid) (Some agent) = (Inr False, mem)) \<and>
   (agent \<noteq> [] \<and> map_of mem sid = None \<longrightarrow>
      clear_session mem (Some sid) (Some agent) = (Inr False, mem)) \<and>
   fst (get_history (snd (clear_session mem (Some sid) None)) (Some sid) ch) = Inr []"
proof -
  have gone: "map_of (AList.delete sid mem) sid = None"
    by (simp add: delete_conv')
  have "fst (get_history (AList.delete sid mem) (Some sid) ch) = Inr []"
  proof (cases "sid = []")
    case True
    then show ?thesis by (simp add: get_history_no_session)
  next
    case False
    then show ?thesis using gone by (simp add: get_history_session)
  qed
  then show ?thesis
    by (simp add: clear_session_whole clear_session_agent)
qed

theorem clear_session_result_witness:
  "clear_session
     [(ascii ''s1'', [(ascii ''consulting'', [\<lparr>role = ascii ''user'', content = ascii ''hi'', timestamp = 5\<rparr>])])]
     (Some (ascii ''s1'')) (Some (ascii ''consulting''))
     = (Inr True, [(ascii ''s1'', [(ascii ''consulting'', [])])]) \<and>
   clear_session
     [(ascii ''s1'', [(ascii ''consulting'', [\<lparr>role = ascii ''user'', content = ascii ''hi'', timestamp = 5\<rparr>])])]
     (Some (ascii ''s1'')) (Some (ascii ''check_order''))
     = (Inr False,
        [(ascii ''s1'', [(ascii ''consulting'', [\<lparr>role = ascii ''user'', content = ascii ''hi'', timestamp = 5\<rparr>])])]) \<and>
   clear_session [] (Some (ascii ''s1'')) (Some (ascii ''consulting'')) = (Inr False, []) \<and>
   clear_session
     [(ascii ''s1'', [(ascii ''consulting'', [\<lparr>role = ascii ''user'', content = ascii ''hi'', timestamp = 5\<rparr>])])]
     (Some (ascii ''s1'')) None
     = (Inr True, [])"
proof -
  let ?s = "ascii ''s1''"
  let ?sess = "[(ascii ''consulting'', [\<lparr>role = ascii ''user'', content = ascii ''hi'', timestamp = 5\<rparr>])]"
  let ?mem = "[(?s, ?sess)]"
  have a: "ascii ''consulting'' \<noteq> [] \<and> map_of ?mem ?s = Some ?sess \<and>
           map_of ?sess (ascii ''consulting'') \<noteq> None"
    by (simp add: ascii_def)
  have b: "ascii ''check_order'' \<noteq> [] \<and> map_of ?mem ?s = Some ?sess \<and>
           map_of ?sess (ascii ''check_order'') = None"
    by (simp add: ascii_def)
  have c: "ascii ''consulting'' \<noteq> [] \<and> map_of ([] :: memory) ?s = None"
    by (simp add: ascii_def)
  have 1: "clear_session ?mem (Some ?s) (Some (ascii ''consulting''))
             = (Inr True, AList.update ?s (AList.update (ascii ''consulting'') [] ?sess) ?mem)"
    using clear_session_result [of ?mem ?s "ascii ''consulting''" ?sess] a by blast
  have 2: "clear_session ?mem (Some ?s) (Some (ascii ''check_order'')) = (Inr False, ?mem)"
    using clear_session_result [of ?mem ?s "ascii ''check_order''" ?sess] b by blast
  have 3: "clear_session [] (Some ?s) (Some (ascii ''consulting'')) = (Inr False, [])"
    using clear_session_result [of "[]" ?s "ascii ''consulting''"] c by blast
  have 4: "clear_session ?mem (Some ?s) None = (Inr (map_of ?mem ?s \<noteq> None), AList.delete ?s ?mem)"
    using clear_session_result [of ?mem ?s] by blast
  show ?thesis using 1 2 3 4 by simp
qed

subsection \<open>Sweeping\<close>

lemma scan_agents_char:
  "scan_agents ls mr =
     (let ts = map (\<lambda>m. timestamp (last m)) (filter (\<lambda>m. m \<noteq> []) ls)
      in if ts = [] then mr
         else Some (case mr of None \<Rightarrow> Max (set ts) | Some m \<Rightarrow> max m (Max (set ts))))"
proof (induction ls arbitrary: mr)
  case Nil
  then show ?case by simp
next
  case (Cons l ls)
  show ?case
  proof (cases "l = []")
    case True
    then show ?thesis using Cons.IH by simp
  next
    case False
    show ?thesis
    proof (cases "filter (\<lambda>m. m \<noteq> []) ls = []")
      case True
      then show ?thesis using False Cons.IH
        by (cases mr) (auto simp: Let_def max_def)
    next
      case ne: False
      then have "set (map (\<lambda>m. timestamp (last m)) (filter (\<lambda>m. m \<noteq> []) ls)) \<noteq> {}"
        unfolding set_empty map_is_Nil_conv .
      then show ?thesis using False ne Cons.IH
        by (cases mr) (auto simp: Let_def max_def simp del: set_map)
    qed
  qed
qed

lemma session_is_old_idle:
  assumes "\<bar>h div 24\<bar> \<le> 999999999"
  shows "session_is_old now h agents = Inr (idle now h agents)"
proof (cases "last_turn_times agents = []")
  case True
  then have "scan_agents (map snd agents) None = None"
    by (simp add: scan_agents_char last_turn_times_def)
  then show ?thesis using True by (simp add: session_is_old_def idle_def)
next
  case False
  then have "scan_agents (map snd agents) None = Some (Max (set (last_turn_times agents)))"
    by (simp add: scan_agents_char Let_def last_turn_times_def)
  then show ?thesis using assms False
    by (simp add: session_is_old_def idle_def timedelta_hours_def)
qed

lemma collect_old_idle:
  assumes "\<bar>h div 24\<bar> \<le> 999999999"
  shows "collect_old now h mem acc = Inr (acc @ map fst (filter (\<lambda>p. idle now h (snd p)) mem))"
proof (induction mem arbitrary: acc)
  case Nil
  then show ?case by simp
next
  case (Cons p mem)
  obtain sid agents where p: "p = (sid, agents)" by (cases p)
  show ?case using Cons.IH by (simp add: p session_is_old_idle [OF assms])
qed

lemma fold_delete_filter:
  "fold AList.delete ks al = filter (\<lambda>p. fst p \<notin> set ks) al"
proof (induction ks arbitrary: al)
  case Nil
  then show ?case by simp
next
  case (Cons k ks)
  have "AList.delete k al = filter (\<lambda>p. fst p \<noteq> k) al"
    by (auto simp: AList.delete_eq intro: filter_cong)
  then show ?case using Cons.IH by (auto intro: filter_cong)
qed

lemma fold_delete_selected:
  assumes "distinct (map fst al)"
  shows "fold AList.delete (map fst (filter P al)) al = filter (\<lambda>p. \<not> P p) al"
proof -
  have "\<And>p. p \<in> set al \<Longrightarrow> (fst p \<notin> fst ` set (filter P al)) = (\<not> P p)"
  proof -
    fix p assume p: "p \<in> set al"
    show "(fst p \<notin> fst ` set (filter P al)) = (\<not> P p)"
    proof
      assume "fst p \<notin> fst ` set (filter P al)"
      then show "\<not> P p" using p by force
    next
      assume np: "\<not> P p"
      show "fst p \<notin> fst ` set (filter P al)"
      proof
        assume "fst p \<in> fst ` set (filter P al)"
        then obtain q where q: "q \<in> set al" "P q" "fst q = fst p" by auto
        then have "q = p" using assms p by (metis eq_key_imp_eq_value prod.collapse)
        then show False using q np by simp
      qed
    qed
  qed
  then show ?thesis by (simp add: fold_delete_filter cong: filter_cong)
qed

lemma no_turns_not_idle:
  "concat (map snd agents) = [] \<Longrightarrow> \<not> idle now h agents"
proof -
  assume "concat (map snd agents) = []"
  then have "filter (\<lambda>msgs. msgs \<noteq> []) (map snd agents) = []"
    by (auto simp: filter_empty_conv)
  then show ?thesis by (simp add: idle_def last_turn_times_def)
qed

lemma sorted_le_last: "sorted xs \<Longrightarrow> x \<in> set xs \<Longrightarrow> x \<le> last (xs :: int list)"
  by (induction xs) auto

text \<open>
  When every list of a session is in the order of its timestamps, as \<open>add_message\<close>
  fills it under a clock that does not run backwards, the latest of the lists' last
  timestamps is the latest timestamp of the session.
\<close>

lemma last_turn_times_chronological:
  assumes "\<forall>msgs \<in> snd ` set agents. sorted (map timestamp msgs)"
    and "concat (map snd agents) \<noteq> []"
  shows "Max (set (last_turn_times agents)) = Max (timestamp ` set (concat (map snd agents)))"
proof (rule antisym)
  let ?L = "set (last_turn_times agents)"
  let ?A = "timestamp ` set (concat (map snd agents))"
  have finL: "finite ?L" and finA: "finite ?A" by simp_all
  have neA: "?A \<noteq> {}" using assms(2) by (simp del: set_concat)
  have sub: "?L \<subseteq> ?A"
  proof
    fix t assume "t \<in> ?L"
    then obtain ms where ms: "ms \<in> snd ` set agents" "ms \<noteq> []" "t = timestamp (last ms)"
      by (auto simp: last_turn_times_def)
    then have "last ms \<in> set (concat (map snd agents))"
      using last_in_set [of ms] by force
    then show "t \<in> ?A" using ms(3) by blast
  qed
  obtain msgs where m: "msgs \<in> snd ` set agents" "msgs \<noteq> []"
    using assms(2) by auto
  then have neL: "?L \<noteq> {}" by (auto simp: last_turn_times_def)
  show "Max ?L \<le> Max ?A" using sub neL finA by (rule Max_mono)
  show "Max ?A \<le> Max ?L"
  proof (rule Max.boundedI [OF finA neA])
    fix t assume "t \<in> ?A"
    then obtain ms x where x: "ms \<in> snd ` set agents" "x \<in> set ms" "t = timestamp x" by auto
    then have ne: "ms \<noteq> []" by auto
    have "sorted (map timestamp ms)" using assms(1) x(1) by blast
    moreover have "timestamp x \<in> set (map timestamp ms)" using x(2) by simp
    ultimately have "timestamp x \<le> last (map timestamp ms)" by (rule sorted_le_last)
    then have "t \<le> timestamp (last ms)" using ne x(3) by (simp add: last_map)
    moreover have "timestamp (last ms) \<in> ?L" using x(1) ne by (auto simp: last_turn_times_def)
    ultimately show "t \<le> Max ?L" using finL by (meson Max_ge order_trans)
  qed
qed

text \<open>
  C5, as first stated (a session with no message at all is deleted), fails: the
  session \<open>s1\<close> as \<open>ensure_session\<close> creates it, with three empty lists, is kept, and
  the count of deleted sessions is 0.
\<close>

theorem cleanup_keeps_session_without_turns:
  "cleanup_old_sessions 1000000000000000 [(ascii ''s1'', new_session)] 24
   = (Inr 0, [(ascii ''s1'', new_session)])"
  by (simp add: cleanup_old_sessions_def session_is_old_def new_session_def)

text \<open>
  C5, amended. For a memory whose session identifiers are distinct (as the keys of a
  \<open>dict\<close> are) and a \<open>max_age_hours\<close> that \<open>timedelta\<close> accepts,
  \<open>cleanup_old_sessions\<close> deletes exactly the idle sessions: those with at least one
  message whose most recent timestamp, read from the last message of each agent's list,
  is more than \<open>max_age_hours\<close> hours before the clock reading. It returns their number,
  and leaves every other session as it was and in its place; a session with no message
  at all is never idle, so it is kept.
\<close>

theorem cleanup_old_sessions_deletes_idle:
  assumes "distinct (map fst mem)" and "\<bar>max_age_hours div 24\<bar> \<le> 999999999"
  shows "cleanup_old_sessions now mem max_age_hours =
           (Inr (length (filter (\<lambda>p. idle now max_age_hours (snd p)) mem)),
            filter (\<lambda>p. \<not> idle now max_age_hours (snd p)) mem) \<and>
         (\<forall>p \<in> set mem. concat (map snd (snd p)) = [] \<longrightarrow> \<not> idle now max_age_hours (snd p))"
  using assms
  by (simp add: cleanup_old_sessions_def collect_old_idle fold_delete_selected no_turns_not_idle)

theorem cleanup_old_sessions_deletes_idle_witness:
  "cleanup_old_sessions 200000000000
     [(ascii ''s1'', [(ascii ''consulting'', [\<lparr>role = ascii ''user'', content = ascii ''a'', timestamp = 0\<rparr>])]),
      (ascii ''s2'', [(ascii ''consulting'', [\<lparr>role = ascii ''user'', content = ascii ''b'', timestamp = 199999999999\<rparr>])]),
      (ascii ''s3'', new_session)]
     24
   = (Inr 1,
      [(ascii ''s2'', [(ascii ''consulting'', [\<lparr>role = ascii ''user'', content = ascii ''b'', timestamp = 199999999999\<rparr>])]),
       (ascii ''s3'', new_session)])"
proof -
  let ?m1 = "[(ascii ''consulting'', [\<lparr>role = ascii ''user'', content = ascii ''a'', timestamp = 0\<rparr>])]"
  let ?m2 = "[(ascii ''consulting'', [\<lparr>role = ascii ''user'', content = ascii ''b'', timestamp = 199999999999\<rparr>])]"
  let ?mem = "[(ascii ''s1'', ?m1), (ascii ''s2'', ?m2), (ascii ''s3'', new_session)]"
  have d: "distinct (map fst ?mem)" by (simp add: ascii_def)
  have h: "\<bar>(24::int) div 24\<bar> \<le> 999999999" by simp
  have i1: "idle 200000000000 24 ?m1" by (simp add: idle_def last_turn_times_def)
  have i2: "\<not> idle 200000000000 24 ?m2" by (simp add: idle_def last_turn_times_def)
  have i3: "\<not> idle 200000000000 24 new_session"
    by (simp add: idle_def last_turn_times_def new_session_def)
  from cleanup_old_sessions_deletes_idle [OF d h, of 200000000000]
  have "cleanup_old_sessions 200000000000 ?mem 24 =
          (Inr (length (filter (\<lambda>p. idle 200000000000 24 (snd p)) ?mem)),
           filter (\<lambda>p. \<not> idle 200000000000 24 (snd p)) ?mem)"
    by blast
  then show ?thesis using i1 i2 i3 by simp
qed

section \<open>Properties of the document searches\<close>

lemma py_in_empty [simp]: "py_in [] s"
  by (induction s) simp_all

lemma py_count_empty [simp]: "py_count [] s = Suc (length s)"
  by (induction s) simp_all


lemma py_count_in: "0 < py_count sub s \<Longrightarrow> py_in sub s"
proof (induction sub s rule: py_count.induct)
  case (1 sub)
  then show ?case by (simp split: if_splits)
next
  case (2 sub c cs)
  then show ?case by (auto split: if_splits)
qed

lemma match_documents_map:
  "match_documents lower q docs =
     map (\<lambda>d. make_hit lower q (fst d) (snd d))
       (filter (\<lambda>d. py_in q (lower (doc_content (snd d)))) docs)"
  by (induction docs) simp_all

lemma make_hit_fields [simp]:
  "document (make_hit lower q name data) = name"
  "hit_filename (make_hit lower q name data) = filename data"
  "hit_type (make_hit lower q name data) = doc_type data"
  "relevance (make_hit lower q name data) = py_count q (lower (doc_content data))"
  by (simp_all add: make_hit_def Let_def)




lemma set_slice_to: "set (slice_to limit xs) \<subseteq> set xs"
  by (auto simp: slice_to_def dest: in_set_takeD)






lemma search_in_documents_sound:
  assumes "h \<in> set (search_in_documents lower docs query limit)"
  shows "\<exists>d \<in> set docs. py_in (lower query) (lower (doc_content (snd d))) \<and>
           h = make_hit lower (lower query) (fst d) (snd d)"
proof -
  have "h \<in> set (sort_by_relevance (match_documents lower (lower query) docs))"
    using assms set_slice_to [of limit "sort_by_relevance (match_documents lower (lower query) docs)"]
    unfolding search_in_documents_def by (rule set_mp [rotated])
  then have "h \<in> (\<lambda>d. make_hit lower (lower query) (fst d) (snd d)) `
               {d \<in> set docs. py_in (lower query) (lower (doc_content (snd d)))}"
    by (simp add: sort_by_relevance_def match_documents_map)
  then show ?thesis by blast
qed












subsection \<open>The empty query and the empty corpus\<close>

lemma search_products_loop_empty:
  assumes "lower [] = []"
  shows "search_products_loop lower dumps [] limit products results =
           (if products = [] then results
            else results @ take (max 1 (nat (limit - int (length results)))) products)"
proof (induction products arbitrary: results)
  case Nil
  then show ?case by simp
next
  case (Cons p products)
  obtain product_id product_data where p: "p = (product_id, product_data)" by (cases p)
  show ?case
  proof (cases "int (length results) + 1 \<ge> limit")
    case True
    then have "max 1 (nat (limit - int (length results))) = 1" by auto
    then show ?thesis using True by (simp add: p)
  next
    case False
    then have "max 1 (nat (limit - int (length results))) = Suc (nat (limit - int (length results) - 1))"
      by auto
    moreover have "products \<noteq> [] \<Longrightarrow>
       max 1 (nat (limit - int (length (results @ [p])))) = nat (limit - int (length results) - 1)"
      using False by auto
    ultimately show ?thesis using False Cons.IH [of "results @ [p]"] by (auto simp: p)
  qed
qed

text \<open>
  C4, amended. On an empty corpus both searches return the empty list, for every query
  and limit. The empty query is not refused: it occurs in every text (\<open>lower\<close> maps
  the empty string to itself), so \<open>search_in_documents\<close> returns as many hits as the
  corpus has entries, cut as the slice \<open>[:limit]\<close> cuts, each with relevance the length
  of the lower-cased content plus 1, and \<open>search_products\<close> returns the first
  \<open>max(limit, 1)\<close> products.
\<close>

theorem search_with_empty_query:
  "search_in_documents lower [] query limit = [] \<and>
   search_products lower dumps [] query limit = [] \<and>
   (lower [] = [] \<longrightarrow>
      length (search_in_documents lower docs [] limit) = length (slice_to limit docs) \<and>
      (\<forall>h \<in> set (search_in_documents lower docs [] limit).
         \<exists>d \<in> set docs. document h = fst d \<and>
           relevance h = Suc (length (lower (doc_content (snd d))))) \<and>
      search_products lower dumps products [] limit = take (max 1 (nat limit)) products)"
proof -
  have 1: "search_in_documents lower [] query limit = []"
    by (simp add: search_in_documents_def sort_by_relevance_def slice_to_def)
  have 2: "search_products lower dumps [] query limit = []"
    by (simp add: search_products_def)
  have 3: "length (search_in_documents lower docs [] limit) = length (slice_to limit docs)"
    if "lower [] = []"
    using that
    by (simp add: search_in_documents_def sort_by_relevance_def slice_to_def match_documents_map)
  have 4: "\<exists>d \<in> set docs. document h = fst d \<and>
           relevance h = Suc (length (lower (doc_content (snd d))))"
    if l: "lower [] = []" and h: "h \<in> set (search_in_documents lower docs [] limit)" for h
  proof -
    from search_in_documents_sound [OF h] obtain d where
      d: "d \<in> set docs" "h = make_hit lower (lower []) (fst d) (snd d)" by blast
    then show ?thesis using l by (intro bexI [of _ d]) simp_all
  qed
  have 5: "search_products lower dumps products [] limit = take (max 1 (nat limit)) products"
    if "lower [] = []"
    using that by (simp add: search_products_def search_products_loop_empty)
  show ?thesis using 1 2 3 4 5 by blast
qed

text \<open>
  C4, as first stated (an empty query returns the empty list), fails on a corpus that
  is not empty: both searches return the one entry.
\<close>

theorem search_with_empty_query_counterexample:
  "search_in_documents ascii_lower
     [(ascii ''d1'', \<lparr>filename = ascii ''d1.txt'', doc_type = ascii ''text'', doc_content = ascii ''ab''\<rparr>)]
     [] 5
   = [\<lparr>document = ascii ''d1'', hit_filename = ascii ''d1.txt'', hit_type = ascii ''text'',
       snippet = ascii ''ab'', relevance = 3\<rparr>] \<and>
   search_products ascii_lower (\<lambda>p. p) [(1::nat, ascii ''x'')] [] 5
   = [(1, ascii ''x'')]"
  by (simp add: search_in_documents_def sort_by_relevance_def slice_to_def make_hit_def
      slice_def clamp_index_def strip_def isspace_def search_products_def
      ascii_lower_def ascii_def)

theorem search_with_empty_query_witness:
  "ascii_lower [] = [] \<and>
   length (search_in_documents ascii_lower
     [(ascii ''d1'', \<lparr>filename = ascii ''d1.txt'', doc_type = ascii ''text'', doc_content = ascii ''ab''\<rparr>),
      (ascii ''d2'', \<lparr>filename = ascii ''d2.txt'', doc_type = ascii ''text'', doc_content = ascii ''c''\<rparr>)]
     [] 1) = 1 \<and>
   search_products ascii_lower (\<lambda>p. p) [(1::nat, ascii ''a''), (2, ascii ''b''), (3, ascii ''c'')] [] 2
     = [(1, ascii ''a''), (2, ascii ''b'')]"
proof -
  let ?docs = "[(ascii ''d1'', \<lparr>filename = ascii ''d1.txt'', doc_type = ascii ''text'', doc_content = ascii ''ab''\<rparr>),
      (ascii ''d2'', \<lparr>filename = ascii ''d2.txt'', doc_type = ascii ''text'', doc_content = ascii ''c''\<rparr>)]"
  let ?ps = "[(1::nat, ascii ''a''), (2, ascii ''b''), (3, ascii ''c'')]"
  have l: "ascii_lower [] = []" by (simp add: ascii_lower_def)
  note t = search_with_empty_query [of ascii_lower _ _ "\<lambda>p. p" ?docs ?ps]
  from t [of "[]" 1] l have "length (search_in_documents ascii_lower ?docs [] 1) = length (slice_to 1 ?docs)"
    by blast
  then have a: "length (search_in_documents ascii_lower ?docs [] 1) = 1" by (simp add: slice_to_def)
  from t [of "[]" 2] l have "search_products ascii_lower (\<lambda>p. p) ?ps [] 2 = take (max 1 (nat 2)) ?ps"
    by blast
  then have b: "search_products ascii_lower (\<lambda>p. p) ?ps [] 2 = [(1, ascii ''a''), (2, ascii ''b'')]"
    by simp
  show ?thesis using l a b by (intro conjI)
qed

section \<open>Properties of query rewriting and of the merged search\<close>

lemma extract_keywords_long: "w \<in> set (extract_keywords lower text) \<Longrightarrow> 2 < length w"
  by (simp add: extract_keywords_def)

lemma join_space_nonempty: "ws \<noteq> [] \<Longrightarrow> \<forall>w \<in> set ws. w \<noteq> [] \<Longrightarrow> join_space ws \<noteq> []"
  by (induction ws rule: join_space.induct) auto

lemma simple_keyword_extraction_candidates:
  "simple_keyword_extraction lower list_of_set text =
     take 5 (list_of_set (candidate_queries (extract_keywords lower text)))"
  by (simp add: simple_keyword_extraction_def)

lemma candidate_queries_nonempty: "candidate_queries kws \<noteq> []"
  by (cases kws) (auto simp: candidate_queries_def)

lemma candidate_queries_no_keywords: "candidate_queries [] = [[]]"
  by (simp add: candidate_queries_def)

lemma candidate_queries_words:
  assumes "kws \<noteq> []" "\<forall>w \<in> set kws. w \<noteq> []"
  shows "\<forall>q \<in> set (candidate_queries kws). q \<noteq> []"
proof -
  have "join_space kws \<noteq> []" using assms by (rule join_space_nonempty)
  moreover have "\<forall>q \<in> set (take 3 kws). q \<noteq> []" using assms(2) by (auto dest: in_set_takeD)
  ultimately show ?thesis by (auto simp: candidate_queries_def)
qed

lemma take_nonempty: "xs \<noteq> [] \<Longrightarrow> take 5 xs \<noteq> []"
  by (cases xs) simp_all

lemma rewrite_query_parsed:
  "rewrite_query lower list_of_set json_loads model ctx user_input session_id =
     (case parsed_response json_loads model ctx user_input session_id of
        None \<Rightarrow> (JArr (map JStr (simple_keyword_extraction lower list_of_set user_input)), ctx)
      | Some data \<Rightarrow>
          (dict_get data (ascii ''search_queries'') (JArr []),
           case session_id of
             Some (c # cs) \<Rightarrow>
               AList.update (c # cs)
                 \<lparr>topic = dict_get data (ascii ''main_topic'') JNull,
                  entities = dict_get data (ascii ''entities'') (JArr [])\<rparr> ctx
           | _ \<Rightarrow> ctx))"
proof (cases model)
  case None
  then show ?thesis by (simp add: rewrite_query_def parsed_response_def)
next
  case (Some generate)
  let ?p = "\<lparr>prompt_input = user_input, prompt_context = previous_topic ctx session_id\<rparr>"
  show ?thesis
  proof (cases "generate ?p")
    case (Inl e)
    then show ?thesis using Some by (simp add: rewrite_query_def parsed_response_def)
  next
    case (Inr response)
    show ?thesis
    proof (cases "json_match response")
      case None
      then show ?thesis using Some Inr by (simp add: rewrite_query_def parsed_response_def)
    next
      case m: (Some matched)
      show ?thesis
      proof (cases "json_loads matched")
        case None
        then show ?thesis using Some Inr m by (simp add: rewrite_query_def parsed_response_def)
      next
        case l: (Some v)
        show ?thesis
          using Some Inr m l
          by (cases v) (simp_all add: rewrite_query_def parsed_response_def Let_def)
      qed
    qed
  qed
qed

lemma distinct_singleton: "distinct xs \<Longrightarrow> set xs = {a} \<Longrightarrow> xs = [a]"
proof -
  assume d: "distinct xs" and s: "set xs = {a}"
  have "length xs = card (set xs)" using d by (simp add: distinct_card)
  then have "length xs = 1" using s by simp
  then obtain x where "xs = [x]" by (cases xs) auto
  then show ?thesis using s by simp
qed

text \<open>
  C3, amended. Whatever \<open>list(set(...))\<close> does to the order, as long as it lists each
  query once, the rule-based extraction returns between 1 and 5 queries, all different.
  When at least one keyword is left after the stop words and the words of at most two
  characters are dropped, every query returned is a non-empty string; when no keyword is
  left, the result is the one query \<open>''\<close>, the empty string, and not the utterance. It is
  what \<open>rewrite_query\<close> returns whenever no object is parsed from a response of the
  capability (none available, \<open>generate\<close> raises, no braces, \<open>json.loads\<close> fails).
\<close>

theorem keyword_extraction_result:
  assumes "\<forall>qs. set (list_of_set qs) = set qs \<and> distinct (list_of_set qs)"
  shows "1 \<le> length (simple_keyword_extraction lower list_of_set text) \<and>
         length (simple_keyword_extraction lower list_of_set text) \<le> 5 \<and>
         distinct (simple_keyword_extraction lower list_of_set text) \<and>
         (extract_keywords lower text \<noteq> [] \<longrightarrow>
            (\<forall>q \<in> set (simple_keyword_extraction lower list_of_set text). q \<noteq> [])) \<and>
         (extract_keywords lower text = [] \<longrightarrow>
            simple_keyword_extraction lower list_of_set text = [[]]) \<and>
         (parsed_response json_loads model ctx text session_id = None \<longrightarrow>
            fst (rewrite_query lower list_of_set json_loads model ctx text session_id) =
              JArr (map JStr (simple_keyword_extraction lower list_of_set text)))"
proof -
  let ?kws = "extract_keywords lower text"
  let ?c = "candidate_queries ?kws"
  let ?r = "simple_keyword_extraction lower list_of_set text"
  have r: "?r = take 5 (list_of_set ?c)" by (rule simple_keyword_extraction_candidates)
  have "set (list_of_set ?c) = set ?c" using assms by blast
  then have ne: "list_of_set ?c \<noteq> []" using candidate_queries_nonempty [of ?kws] by auto
  then have "?r \<noteq> []" unfolding r by (rule take_nonempty)
  then have 1: "1 \<le> length ?r" by (cases ?r) simp_all
  have 2: "length ?r \<le> 5" by (simp add: r)
  have d: "distinct ?r" using assms by (simp add: r)
  have sub: "set ?r \<subseteq> set ?c"
    using assms by (auto simp: r dest: in_set_takeD)
  have 3: "\<forall>q \<in> set ?r. q \<noteq> []" if k: "?kws \<noteq> []"
  proof -
    have "\<forall>w \<in> set ?kws. w \<noteq> []" using extract_keywords_long by fastforce
    then have "\<forall>q \<in> set ?c. q \<noteq> []" using k by (intro candidate_queries_words)
    then show ?thesis using sub by blast
  qed
  have 4: "?r = [[]]" if k: "?kws = []"
  proof -
    have "set (list_of_set [[]]) = {[]}" "distinct (list_of_set [[]])" using assms by simp_all
    then have "list_of_set [[]] = [[]]" by (intro distinct_singleton)
    then show ?thesis using k by (simp add: r candidate_queries_no_keywords)
  qed
  have 5: "fst (rewrite_query lower list_of_set json_loads model ctx text session_id) = JArr (map JStr ?r)"
    if "parsed_response json_loads model ctx text session_id = None"
    using that by (simp add: rewrite_query_parsed)
  show ?thesis using 1 2 d 3 4 5 by blast
qed

text \<open>
  C3, as first stated (every query returned is non-empty, and the utterance itself is
  returned when no keyword is found), fails: without a capability, for the utterance
  \<open>hi\<close>, which is not empty and has no word of more than two characters,
  \<open>rewrite_query\<close> returns the one query \<open>''\<close>.
\<close>

theorem keyword_extraction_returns_empty_string:
  "rewrite_query ascii_lower remdups (\<lambda>t. None) None [] (ascii ''hi'') None = (JArr [JStr []], [])"
  by (simp add: rewrite_query_def simple_keyword_extraction_def candidate_queries_def extract_keywords_def
      split_def isspace_def ascii_lower_def ascii_def)

theorem keyword_extraction_result_witness:
  "(\<forall>qs :: pystr list. set (remdups qs) = set qs \<and> distinct (remdups qs)) \<and>
   extract_keywords ascii_lower (ascii ''Son 2K  GIA'') = [ascii ''son'', ascii ''gia''] \<and>
   1 \<le> length (simple_keyword_extraction ascii_lower remdups (ascii ''Son 2K  GIA'')) \<and>
   length (simple_keyword_extraction ascii_lower remdups (ascii ''Son 2K  GIA'')) \<le> 5 \<and>
   [] \<notin> set (simple_keyword_extraction ascii_lower remdups (ascii ''Son 2K  GIA'')) \<and>
   extract_keywords ascii_lower (ascii ''hi'') = [] \<and>
   simple_keyword_extraction ascii_lower remdups (ascii ''hi'') = [[]] \<and>
   fst (rewrite_query ascii_lower remdups (\<lambda>t. None) None [] (ascii ''hi'') None) =
     JArr (map JStr (simple_keyword_extraction ascii_lower remdups (ascii ''hi'')))"
proof -
  have los: "\<forall>qs :: pystr list. set (remdups qs) = set qs \<and> distinct (remdups qs)" by simp
  have k1: "extract_keywords ascii_lower (ascii ''Son 2K  GIA'') = [ascii ''son'', ascii ''gia'']"
    by (simp add: extract_keywords_def split_def isspace_def stop_words_def ascii_lower_def ascii_def)
  have k2: "extract_keywords ascii_lower (ascii ''hi'') = []"
    by (simp add: extract_keywords_def split_def isspace_def ascii_lower_def ascii_def)
  have p: "parsed_response (\<lambda>t. None) None [] (ascii ''hi'') None = None"
    by (simp add: parsed_response_def)
  note t1 = keyword_extraction_result [OF los, of ascii_lower "ascii ''Son 2K  GIA''"]
  note t2 = keyword_extraction_result [OF los, of ascii_lower "ascii ''hi''" "\<lambda>t. None" None "[]" None]
  have a: "1 \<le> length (simple_keyword_extraction ascii_lower remdups (ascii ''Son 2K  GIA''))"
       "length (simple_keyword_extraction ascii_lower remdups (ascii ''Son 2K  GIA'')) \<le> 5"
    using t1 by blast+
  have "\<forall>q \<in> set (simple_keyword_extraction ascii_lower remdups (ascii ''Son 2K  GIA'')). q \<noteq> []"
    using t1 k1 by simp
  then have b: "[] \<notin> set (simple_keyword_extraction ascii_lower remdups (ascii ''Son 2K  GIA''))"
    by blast
  have c: "simple_keyword_extraction ascii_lower remdups (ascii ''hi'') = [[]]"
    using t2 k2 by blast
  have d: "fst (rewrite_query ascii_lower remdups (\<lambda>t. None) None [] (ascii ''hi'') None) =
     JArr (map JStr (simple_keyword_extraction ascii_lower remdups (ascii ''hi'')))"
    using t2 p by blast
  show ?thesis using los k1 a b k2 c d by (intro conjI)
qed

lemma parsed_response_cases:
  "parsed_response json_loads None ctx u sid = None"
  "g \<lparr>prompt_input = u, prompt_context = previous_topic ctx sid\<rparr> = Inl e \<Longrightarrow>
     parsed_response json_loads (Some g) ctx u sid = None"
  "g \<lparr>prompt_input = u, prompt_context = previous_topic ctx sid\<rparr> = Inr resp \<Longrightarrow>
     json_match resp = None \<Longrightarrow> parsed_response json_loads (Some g) ctx u sid = None"
  "g \<lparr>prompt_input = u, prompt_context = previous_topic ctx sid\<rparr> = Inr resp \<Longrightarrow>
     json_match resp = Some m \<Longrightarrow> \<forall>data. json_loads m \<noteq> Some (JObj data) \<Longrightarrow>
     parsed_response json_loads (Some g) ctx u sid = None"
  "g \<lparr>prompt_input = u, prompt_context = previous_topic ctx sid\<rparr> = Inr resp \<Longrightarrow>
     json_match resp = Some m \<Longrightarrow> json_loads m = Some (JObj data) \<Longrightarrow>
     parsed_response json_loads (Some g) ctx u sid = Some data"
proof -
  show "parsed_response json_loads None ctx u sid = None"
    by (simp add: parsed_response_def)
  show "parsed_response json_loads (Some g) ctx u sid = None"
    if "g \<lparr>prompt_input = u, prompt_context = previous_topic ctx sid\<rparr> = Inl e"
    using that by (simp add: parsed_response_def)
  show "parsed_response json_loads (Some g) ctx u sid = None"
    if "g \<lparr>prompt_input = u, prompt_context = previous_topic ctx sid\<rparr> = Inr resp"
      "json_match resp = None"
    using that by (simp add: parsed_response_def)
  show "parsed_response json_loads (Some g) ctx u sid = None"
    if a: "g \<lparr>prompt_input = u, prompt_context = previous_topic ctx sid\<rparr> = Inr resp"
      "json_match resp = Some m" and b: "\<forall>data. json_loads m \<noteq> Some (JObj data)"
  proof (cases "json_loads m")
    case None
    then show ?thesis using a by (simp add: parsed_response_def)
  next
    case (Some v)
    then show ?thesis using a b by (cases v) (simp_all add: parsed_response_def)
  qed
  show "parsed_response json_loads (Some g) ctx u sid = Some data"
    if "g \<lparr>prompt_input = u, prompt_context = previous_topic ctx sid\<rparr> = Inr resp"
      "json_match resp = Some m" "json_loads m = Some (JObj data)"
    using that by (simp add: parsed_response_def)
qed

text \<open>
  C6, amended. \<open>rewrite_query\<close> returns the rule-based extraction, and leaves the
  context as it was, when there is no capability, when \<open>generate\<close> raises, when the
  response holds no text in braces, and when \<open>json.loads\<close> raises on that text or
  returns something that is no dict. When a dict is parsed, it returns the value of
  the key \<open>search_queries\<close> as it is, and the empty list when the dict has no such key:
  a response of malformed shape is not sent to the fallback. The function has no other
  path, so no error reaches the caller.
\<close>

theorem rewrite_query_fallback:
  "rewrite_query lower list_of_set json_loads None ctx u sid =
     (JArr (map JStr (simple_keyword_extraction lower list_of_set u)), ctx) \<and>
   (g \<lparr>prompt_input = u, prompt_context = previous_topic ctx sid\<rparr> = Inl e \<longrightarrow>
      rewrite_query lower list_of_set json_loads (Some g) ctx u sid =
        (JArr (map JStr (simple_keyword_extraction lower list_of_set u)), ctx)) \<and>
   (g \<lparr>prompt_input = u, prompt_context = previous_topic ctx sid\<rparr> = Inr resp \<and>
    json_match resp = None \<longrightarrow>
      rewrite_query lower list_of_set json_loads (Some g) ctx u sid =
        (JArr (map JStr (simple_keyword_extraction lower list_of_set u)), ctx)) \<and>
   (g \<lparr>prompt_input = u, prompt_context = previous_topic ctx sid\<rparr> = Inr resp \<and>
    json_match resp = Some m \<and> (\<forall>data. json_loads m \<noteq> Some (JObj data)) \<longrightarrow>
      rewrite_query lower list_of_set json_loads (Some g) ctx u sid =
        (JArr (map JStr (simple_keyword_extraction lower list_of_set u)), ctx)) \<and>
   (g \<lparr>prompt_input = u, prompt_context = previous_topic ctx sid\<rparr> = Inr resp \<and>
    json_match resp = Some m \<and> json_loads m = Some (JObj data) \<longrightarrow>
      fst (rewrite_query lower list_of_set json_loads (Some g) ctx u sid) =
        (case map_of data (ascii ''search_queries'') of None \<Rightarrow> JArr [] | Some v \<Rightarrow> v))"
proof -
  let ?P = "\<lparr>prompt_input = u, prompt_context = previous_topic ctx sid\<rparr>"
  let ?F = "(JArr (map JStr (simple_keyword_extraction lower list_of_set u)), ctx)"
  have 1: "rewrite_query lower list_of_set json_loads None ctx u sid = ?F"
    by (simp add: rewrite_query_parsed parsed_response_cases(1))
  have 2: "rewrite_query lower list_of_set json_loads (Some g) ctx u sid = ?F" if "g ?P = Inl e"
    using parsed_response_cases(2) [of g u ctx sid e json_loads] that by (simp add: rewrite_query_parsed)
  have 3: "rewrite_query lower list_of_set json_loads (Some g) ctx u sid = ?F"
    if "g ?P = Inr resp \<and> json_match resp = None"
    using parsed_response_cases(3) [of g u ctx sid resp json_loads] that
    by (simp add: rewrite_query_parsed)
  have 4: "rewrite_query lower list_of_set json_loads (Some g) ctx u sid = ?F"
    if "g ?P = Inr resp \<and> json_match resp = Some m \<and> (\<forall>data. json_loads m \<noteq> Some (JObj data))"
    using parsed_response_cases(4) [of g u ctx sid resp m json_loads] that
    by (simp add: rewrite_query_parsed)
  have 5: "fst (rewrite_query lower list_of_set json_loads (Some g) ctx u sid) =
        (case map_of data (ascii ''search_queries'') of None \<Rightarrow> JArr [] | Some v \<Rightarrow> v)"
    if "g ?P = Inr resp \<and> json_match resp = Some m \<and> json_loads m = Some (JObj data)"
    using parsed_response_cases(5) [of g u ctx sid resp m json_loads data] that
    by (simp add: rewrite_query_parsed dict_get_def)
  show ?thesis using 1 2 3 4 5 by blast
qed

text \<open>
  C8, as first stated (the context of a session is written only on a successful
  rewrite, and a response of malformed shape goes the way of the fallback, which never
  writes it), fails: for the response \<open>{}\<close>, an object with no \<open>search_queries\<close>, no
  \<open>main_topic\<close> and no \<open>entities\<close>, \<open>rewrite_query\<close> returns the empty list of queries
  and overwrites the topic \<open>old\<close> of the session \<open>s1\<close> by \<open>None\<close> and its entities by the
  empty list.
\<close>

theorem rewrite_query_overwrites_context_on_malformed_response:
  "rewrite_query ascii_lower remdups (\<lambda>t. if t = ascii ''{}'' then Some (JObj []) else None)
     (Some (\<lambda>p. Inr (ascii ''{}'')))
     [(ascii ''s1'', \<lparr>topic = JStr (ascii ''old''), entities = JArr [JStr (ascii ''e'')]\<rparr>)]
     (ascii ''son gia'') (Some (ascii ''s1''))
   = (JArr [], [(ascii ''s1'', \<lparr>topic = JNull, entities = JArr []\<rparr>)])"
  by (simp add: rewrite_query_def json_match_def dict_get_def previous_topic_def ascii_def)

text \<open>
  C8, amended. On each path to the fallback (no capability, \<open>generate\<close> raises, no text in
  braces, \<open>json.loads\<close> raises or returns no dict) \<open>conversation_context\<close> is returned
  unchanged. Whenever a dict is parsed and a non-empty session identifier is given,
  whatever the dict holds and also when it has no \<open>search_queries\<close>, the entry of that
  session is overwritten, not merged: the new context is the old one with that entry
  replaced by the \<open>main_topic\<close> and the \<open>entities\<close> of the dict (\<open>None\<close> and the empty
  list stand for a missing key), and the entries of all other sessions are as they were.
  When a dict is parsed and no session identifier is given, the context is unchanged.
  The context changes only when a dict was parsed and a session identifier was given.
\<close>

theorem rewrite_query_context:
  "snd (rewrite_query lower list_of_set json_loads None ctx u sid) = ctx \<and>
   (g \<lparr>prompt_input = u, prompt_context = previous_topic ctx sid\<rparr> = Inl e \<longrightarrow>
      snd (rewrite_query lower list_of_set json_loads (Some g) ctx u sid) = ctx) \<and>
   (g \<lparr>prompt_input = u, prompt_context = previous_topic ctx sid\<rparr> = Inr resp \<and>
    json_match resp = None \<longrightarrow>
      snd (rewrite_query lower list_of_set json_loads (Some g) ctx u sid) = ctx) \<and>
   (g \<lparr>prompt_input = u, prompt_context = previous_topic ctx sid\<rparr> = Inr resp \<and>
    json_match resp = Some m \<and> (\<forall>data. json_loads m \<noteq> Some (JObj data)) \<longrightarrow>
      snd (rewrite_query lower list_of_set json_loads (Some g) ctx u sid) = ctx) \<and>
   (g \<lparr>prompt_input = u, prompt_context = previous_topic ctx sid\<rparr> = Inr resp \<and>
    json_match resp = Some m \<and> json_loads m = Some (JObj data) \<and> sid = Some s \<and> s \<noteq> [] \<longrightarrow>
      snd (rewrite_query lower list_of_set json_loads (Some g) ctx u sid) =
        AList.update s
          \<lparr>topic = (case map_of data (ascii ''main_topic'') of None \<Rightarrow> JNull | Some v \<Rightarrow> v),
           entities = (case map_of data (ascii ''entities'') of None \<Rightarrow> JArr [] | Some v \<Rightarrow> v)\<rparr>
          ctx \<and>
      map_of (snd (rewrite_query lower list_of_set json_loads (Some g) ctx u sid)) s =
        Some \<lparr>topic = (case map_of data (ascii ''main_topic'') of None \<Rightarrow> JNull | Some v \<Rightarrow> v),
              entities = (case map_of data (ascii ''entities'') of None \<Rightarrow> JArr [] | Some v \<Rightarrow> v)\<rparr> \<and>
      (\<forall>s'. s' \<noteq> s \<longrightarrow>
         map_of (snd (rewrite_query lower list_of_set json_loads (Some g) ctx u sid)) s' =
         map_of ctx s')) \<and>
   (g \<lparr>prompt_input = u, prompt_context = previous_topic ctx sid\<rparr> = Inr resp \<and>
    json_match resp = Some m \<and> json_loads m = Some (JObj data) \<and>
    (sid = None \<or> sid = Some []) \<longrightarrow>
      snd (rewrite_query lower list_of_set json_loads (Some g) ctx u sid) = ctx) \<and>
   (snd (rewrite_query lower list_of_set json_loads model ctx u sid) \<noteq> ctx \<longrightarrow>
      (\<exists>data. parsed_response json_loads model ctx u sid = Some data) \<and>
      (\<exists>s. sid = Some s \<and> s \<noteq> []))"
proof -
  let ?P = "\<lparr>prompt_input = u, prompt_context = previous_topic ctx sid\<rparr>"
  let ?R = "\<lambda>model. snd (rewrite_query lower list_of_set json_loads model ctx u sid)"
  have 1: "?R None = ctx"
    by (simp add: rewrite_query_parsed parsed_response_cases(1))
  have 2: "?R (Some g) = ctx" if "g ?P = Inl e"
    using parsed_response_cases(2) [of g u ctx sid e json_loads] that by (simp add: rewrite_query_parsed)
  have 3: "?R (Some g) = ctx" if "g ?P = Inr resp \<and> json_match resp = None"
    using parsed_response_cases(3) [of g u ctx sid resp json_loads] that
    by (simp add: rewrite_query_parsed)
  have 4: "?R (Some g) = ctx"
    if "g ?P = Inr resp \<and> json_match resp = Some m \<and> (\<forall>data. json_loads m \<noteq> Some (JObj data))"
    using parsed_response_cases(4) [of g u ctx sid resp m json_loads] that
    by (simp add: rewrite_query_parsed)
  have 5: "?R (Some g) =
        AList.update s
          \<lparr>topic = (case map_of data (ascii ''main_topic'') of None \<Rightarrow> JNull | Some v \<Rightarrow> v),
           entities = (case map_of data (ascii ''entities'') of None \<Rightarrow> JArr [] | Some v \<Rightarrow> v)\<rparr>
          ctx \<and>
      map_of (?R (Some g)) s =
        Some \<lparr>topic = (case map_of data (ascii ''main_topic'') of None \<Rightarrow> JNull | Some v \<Rightarrow> v),
              entities = (case map_of data (ascii ''entities'') of None \<Rightarrow> JArr [] | Some v \<Rightarrow> v)\<rparr> \<and>
      (\<forall>s'. s' \<noteq> s \<longrightarrow> map_of (?R (Some g)) s' = map_of ctx s')"
    if h: "g ?P = Inr resp \<and> json_match resp = Some m \<and> json_loads m = Some (JObj data) \<and>
        sid = Some s \<and> s \<noteq> []"
  proof -
    obtain c cs where s: "s = c # cs" using h by (cases s) auto
    from h have a: "g ?P = Inr resp" and b: "json_match resp = Some m"
      and c: "json_loads m = Some (JObj data)" and sid: "sid = Some s"
      by blast+
    have "parsed_response json_loads (Some g) ctx u sid = Some data"
      using a b c by (rule parsed_response_cases(5))
    then show ?thesis
      by (simp add: rewrite_query_parsed sid s dict_get_def update_conv')
  qed
  have nosid: "?R (Some g) = ctx"
    if h: "g ?P = Inr resp \<and> json_match resp = Some m \<and> json_loads m = Some (JObj data) \<and>
        (sid = None \<or> sid = Some [])"
  proof -
    from h have a: "g ?P = Inr resp" and b: "json_match resp = Some m"
      and c: "json_loads m = Some (JObj data)" and sid: "sid = None \<or> sid = Some []"
      by blast+
    have "parsed_response json_loads (Some g) ctx u sid = Some data"
      using a b c by (rule parsed_response_cases(5))
    then show ?thesis using sid by (auto simp: rewrite_query_parsed)
  qed
  have 6: "(\<exists>data. parsed_response json_loads model ctx u sid = Some data) \<and>
      (\<exists>s. sid = Some s \<and> s \<noteq> [])"
    if "?R model \<noteq> ctx"
  proof (cases "parsed_response json_loads model ctx u sid")
    case None
    then show ?thesis using that by (simp add: rewrite_query_parsed)
  next
    case (Some data)
    then show ?thesis using that
      by (auto simp: rewrite_query_parsed split: option.splits list.splits)
  qed
  show ?thesis using 1 2 3 4 5 nosid 6 by blast
qed

subsection \<open>Merging the results of the queries\<close>












text \<open>
  C6, as first stated (a response without a usable \<open>search_queries\<close> field leads to
  the fallback), fails: for the response \<open>{}\<close>, which parses to a dict without that
  key, \<open>rewrite_query\<close> returns the empty list, and not the three queries of the
  rule-based extraction.
\<close>

theorem rewrite_query_returns_empty_on_missing_field:
  "rewrite_query ascii_lower remdups (\<lambda>t. if t = ascii ''{}'' then Some (JObj []) else None)
     (Some (\<lambda>p. Inr (ascii ''{}''))) [] (ascii ''son gia'') None
     = (JArr [], []) \<and>
   simple_keyword_extraction ascii_lower remdups (ascii ''son gia'')
     = [ascii ''son'', ascii ''gia'', ascii ''son gia'']"
  by (simp add: rewrite_query_def json_match_def dict_get_def
      simple_keyword_extraction_def candidate_queries_def extract_keywords_def stop_words_def
      split_def isspace_def ascii_lower_def ascii_def)

theorem rewrite_query_fallback_witness:
  "rewrite_query ascii_lower remdups (\<lambda>t. if t = ascii ''{}'' then Some (JObj []) else None)
     None [] (ascii ''son gia'') None
     = (JArr [JStr (ascii ''son''), JStr (ascii ''gia''), JStr (ascii ''son gia'')], []) \<and>
   rewrite_query ascii_lower remdups (\<lambda>t. if t = ascii ''{}'' then Some (JObj []) else None)
     (Some (\<lambda>p. Inl RuntimeError)) [] (ascii ''son gia'') None
     = (JArr [JStr (ascii ''son''), JStr (ascii ''gia''), JStr (ascii ''son gia'')], []) \<and>
   rewrite_query ascii_lower remdups (\<lambda>t. if t = ascii ''{}'' then Some (JObj []) else None)
     (Some (\<lambda>p. Inr (ascii ''no json''))) [] (ascii ''son gia'') None
     = (JArr [JStr (ascii ''son''), JStr (ascii ''gia''), JStr (ascii ''son gia'')], []) \<and>
   rewrite_query ascii_lower remdups (\<lambda>t. if t = ascii ''{}'' then Some (JObj []) else None)
     (Some (\<lambda>p. Inr (ascii ''{x}''))) [] (ascii ''son gia'') None
     = (JArr [JStr (ascii ''son''), JStr (ascii ''gia''), JStr (ascii ''son gia'')], []) \<and>
   fst (rewrite_query ascii_lower remdups (\<lambda>t. if t = ascii ''{}'' then Some (JObj []) else None)
     (Some (\<lambda>p. Inr (ascii ''{}''))) [] (ascii ''son gia'') None)
     = JArr []"
proof -
  let ?jl = "\<lambda>t. if t = ascii ''{}'' then Some (JObj []) else None"
  let ?u = "ascii ''son gia''"
  let ?P = "\<lparr>prompt_input = ?u, prompt_context = previous_topic [] None\<rparr>"
  let ?g1 = "\<lambda>p :: prompt. (Inl RuntimeError :: py_error + pystr)"
  let ?g2 = "\<lambda>p :: prompt. (Inr (ascii ''no json'') :: py_error + pystr)"
  let ?g3 = "\<lambda>p :: prompt. (Inr (ascii ''{x}'') :: py_error + pystr)"
  let ?g4 = "\<lambda>p :: prompt. (Inr (ascii ''{}'') :: py_error + pystr)"
  have ske: "simple_keyword_extraction ascii_lower remdups ?u
               = [ascii ''son'', ascii ''gia'', ascii ''son gia'']"
    by (simp add: simple_keyword_extraction_def candidate_queries_def extract_keywords_def stop_words_def
        split_def isspace_def ascii_lower_def ascii_def)
  have h1: "?g1 ?P = Inl RuntimeError" by simp
  have h2: "?g2 ?P = Inr (ascii ''no json'') \<and> json_match (ascii ''no json'') = None"
    by (simp add: json_match_def ascii_def)
  have h3: "?g3 ?P = Inr (ascii ''{x}'') \<and> json_match (ascii ''{x}'') = Some (ascii ''{x}'') \<and>
            (\<forall>data. ?jl (ascii ''{x}'') \<noteq> Some (JObj data))"
    by (simp add: json_match_def ascii_def)
  have h4: "?g4 ?P = Inr (ascii ''{}'') \<and> json_match (ascii ''{}'') = Some (ascii ''{}'') \<and>
            ?jl (ascii ''{}'') = Some (JObj [])"
    by (simp add: json_match_def ascii_def)
  have a: "rewrite_query ascii_lower remdups ?jl None [] ?u None =
             (JArr (map JStr (simple_keyword_extraction ascii_lower remdups ?u)), [])"
    using rewrite_query_fallback [of ascii_lower remdups ?jl "[]" ?u None] by blast
  have b: "rewrite_query ascii_lower remdups ?jl (Some ?g1) [] ?u None =
             (JArr (map JStr (simple_keyword_extraction ascii_lower remdups ?u)), [])"
    using rewrite_query_fallback [of ascii_lower remdups ?jl "[]" ?u None ?g1 RuntimeError] h1
    by blast
  have c: "rewrite_query ascii_lower remdups ?jl (Some ?g2) [] ?u None =
             (JArr (map JStr (simple_keyword_extraction ascii_lower remdups ?u)), [])"
    using rewrite_query_fallback
      [of ascii_lower remdups ?jl "[]" ?u None ?g2 _ "ascii ''no json''"] h2
    by blast
  have d: "rewrite_query ascii_lower remdups ?jl (Some ?g3) [] ?u None =
             (JArr (map JStr (simple_keyword_extraction ascii_lower remdups ?u)), [])"
    using rewrite_query_fallback
      [of ascii_lower remdups ?jl "[]" ?u None ?g3 _ "ascii ''{x}''" "ascii ''{x}''"] h3
    by blast
  have "fst (rewrite_query ascii_lower remdups ?jl (Some ?g4) [] ?u None) =
          (case map_of ([] :: (pystr \<times> json) list) (ascii ''search_queries'') of
             None \<Rightarrow> JArr [] | Some v \<Rightarrow> v)"
    using rewrite_query_fallback
      [of ascii_lower remdups ?jl "[]" ?u None ?g4 _ "ascii ''{}''" "ascii ''{}''" "[]"] h4
    by blast
  then have e: "fst (rewrite_query ascii_lower remdups ?jl (Some ?g4) [] ?u None) = JArr []"
    by simp
  show ?thesis using a b c d e by (simp add: ske)
qed

theorem rewrite_query_context_witness:
  "snd (rewrite_query ascii_lower remdups example_loads (Some (\<lambda>p. Inl RuntimeError))
     [(ascii ''s1'', \<lparr>topic = JStr (ascii ''old''), entities = JArr [JStr (ascii ''e'')]\<rparr>)]
     (ascii ''son gia'') (Some (ascii ''s1'')))
   = [(ascii ''s1'', \<lparr>topic = JStr (ascii ''old''), entities = JArr [JStr (ascii ''e'')]\<rparr>)] \<and>
   snd (rewrite_query ascii_lower remdups example_loads (Some (\<lambda>p. Inr example_response))
     [(ascii ''s1'', \<lparr>topic = JStr (ascii ''old''), entities = JArr [JStr (ascii ''e'')]\<rparr>)]
     (ascii ''son gia'') (Some (ascii ''s1'')))
   = [(ascii ''s1'', \<lparr>topic = JStr (ascii ''son''), entities = JArr [JStr (ascii ''2k'')]\<rparr>)] \<and>
   snd (rewrite_query ascii_lower remdups example_loads (Some (\<lambda>p. Inr (ascii ''{}'')))
     [(ascii ''s1'', \<lparr>topic = JStr (ascii ''old''), entities = JArr [JStr (ascii ''e'')]\<rparr>)]
     (ascii ''son gia'') (Some (ascii ''s1'')))
   = [(ascii ''s1'', \<lparr>topic = JNull, entities = JArr []\<rparr>)] \<and>
   snd (rewrite_query ascii_lower remdups example_loads (Some (\<lambda>p. Inr example_response))
     [(ascii ''s1'', \<lparr>topic = JStr (ascii ''old''), entities = JArr [JStr (ascii ''e'')]\<rparr>)]
     (ascii ''son gia'') None)
   = [(ascii ''s1'', \<lparr>topic = JStr (ascii ''old''), entities = JArr [JStr (ascii ''e'')]\<rparr>)]"
proof -
  let ?u = "ascii ''son gia''"
  let ?ctx = "[(ascii ''s1'', \<lparr>topic = JStr (ascii ''old''), entities = JArr [JStr (ascii ''e'')]\<rparr>)]"
  let ?sid = "Some (ascii ''s1'')"
  let ?P = "\<lparr>prompt_input = ?u, prompt_context = previous_topic ?ctx ?sid\<rparr>"
  let ?P0 = "\<lparr>prompt_input = ?u, prompt_context = previous_topic ?ctx None\<rparr>"
  let ?g1 = "\<lambda>p :: prompt. (Inl RuntimeError :: py_error + pystr)"
  let ?g2 = "\<lambda>p :: prompt. (Inr example_response :: py_error + pystr)"
  let ?g3 = "\<lambda>p :: prompt. (Inr (ascii ''{}'') :: py_error + pystr)"
  let ?data = "[(ascii ''main_topic'', JStr (ascii ''son'')),
                (ascii ''entities'', JArr [JStr (ascii ''2k'')]),
                (ascii ''search_queries'', JArr [JStr (ascii ''son 2k'')])]"
  have m2: "json_match example_response = Some example_response"
    by (simp add: json_match_def example_response_def quoted_def ascii_def)
  have l2: "example_loads example_response = Some (JObj ?data)"
    by (simp add: example_loads_def)
  have ne: "ascii ''{}'' \<noteq> example_response"
    by (simp add: example_response_def quoted_def ascii_def)
  have m3: "json_match (ascii ''{}'') = Some (ascii ''{}'')"
    by (simp add: json_match_def ascii_def)
  have l3: "example_loads (ascii ''{}'') = Some (JObj [])"
    using ne by (simp add: example_loads_def)
  have s1: "ascii ''s1'' \<noteq> []" by (simp add: ascii_def)
  have h1: "?g1 ?P = Inl RuntimeError" by simp
  have a: "snd (rewrite_query ascii_lower remdups example_loads (Some ?g1) ?ctx ?u ?sid) = ?ctx"
    using rewrite_query_context [of ascii_lower remdups example_loads ?ctx ?u ?sid ?g1 RuntimeError] h1
    by blast
  have h2: "?g2 ?P = Inr example_response \<and> json_match example_response = Some example_response \<and>
            example_loads example_response = Some (JObj ?data) \<and> ?sid = Some (ascii ''s1'') \<and>
            ascii ''s1'' \<noteq> []"
    using m2 l2 s1 by simp
  have "snd (rewrite_query ascii_lower remdups example_loads (Some ?g2) ?ctx ?u ?sid) =
        AList.update (ascii ''s1'')
          \<lparr>topic = (case map_of ?data (ascii ''main_topic'') of None \<Rightarrow> JNull | Some v \<Rightarrow> v),
           entities = (case map_of ?data (ascii ''entities'') of None \<Rightarrow> JArr [] | Some v \<Rightarrow> v)\<rparr>
          ?ctx"
    using rewrite_query_context
      [of ascii_lower remdups example_loads ?ctx ?u ?sid ?g2 _ example_response example_response
          ?data "ascii ''s1''"] h2
    by blast
  then have b: "snd (rewrite_query ascii_lower remdups example_loads (Some ?g2) ?ctx ?u ?sid) =
       [(ascii ''s1'', \<lparr>topic = JStr (ascii ''son''), entities = JArr [JStr (ascii ''2k'')]\<rparr>)]"
    by (simp add: ascii_def)
  have h3: "?g3 ?P = Inr (ascii ''{}'') \<and> json_match (ascii ''{}'') = Some (ascii ''{}'') \<and>
            example_loads (ascii ''{}'') = Some (JObj []) \<and> ?sid = Some (ascii ''s1'') \<and>
            ascii ''s1'' \<noteq> []"
    using m3 l3 s1 by simp
  have "snd (rewrite_query ascii_lower remdups example_loads (Some ?g3) ?ctx ?u ?sid) =
        AList.update (ascii ''s1'')
          \<lparr>topic = (case map_of ([] :: (pystr \<times> json) list) (ascii ''main_topic'') of
                      None \<Rightarrow> JNull | Some v \<Rightarrow> v),
           entities = (case map_of ([] :: (pystr \<times> json) list) (ascii ''entities'') of
                      None \<Rightarrow> JArr [] | Some v \<Rightarrow> v)\<rparr>
          ?ctx"
    using rewrite_query_context
      [of ascii_lower remdups example_loads ?ctx ?u ?sid ?g3 _ "ascii ''{}''" "ascii ''{}''"
          "[]" "ascii ''s1''"] h3
    by blast
  then have c: "snd (rewrite_query ascii_lower remdups example_loads (Some ?g3) ?ctx ?u ?sid) =
       [(ascii ''s1'', \<lparr>topic = JNull, entities = JArr []\<rparr>)]"
    by simp
  have h4: "?g2 ?P0 = Inr example_response \<and> json_match example_response = Some example_response \<and>
            example_loads example_response = Some (JObj ?data) \<and>
            ((None :: pystr option) = None \<or> (None :: pystr option) = Some [])"
    using m2 l2 by simp
  have d: "snd (rewrite_query ascii_lower remdups example_loads (Some ?g2) ?ctx ?u None) = ?ctx"
    using rewrite_query_context
      [of ascii_lower remdups example_loads ?ctx ?u None ?g2 _ example_response example_response ?data] h4
    by blast
  show ?thesis using a b c d by (intro conjI)
qed

text \<open>
  \<open>smart_search\<close> is this loop run on the queries \<open>rewrite_query\<close> returns, and its
  only effect on the handler is the one of \<open>rewrite_query\<close>.
\<close>

lemma smart_search_parts:
  "fst (smart_search lower list_of_set json_loads dumps item_id docs products model ctx
          user_input session_id limit) =
     search_with lower dumps item_id docs products
       (fst (rewrite_query lower list_of_set json_loads model ctx user_input session_id)) limit"
  "snd (smart_search lower list_of_set json_loads dumps item_id docs products model ctx
          user_input session_id limit) =
     snd (rewrite_query lower list_of_set json_loads model ctx user_input session_id)"
  by (simp_all add: smart_search_def split: prod.splits)

end
